theory Spec2Isabelle
  imports Complex_Main "HOL-Library.Word"
begin

section \<open>Arrays, datasets and errors\<close>

text \<open>
  The notebooks compute on MXNet arrays of single-precision numbers. An array entry is
  modelled by a real number and the arithmetic is exact: rounding and overflow of the
  machine numbers are not part of this model, and underflow is part of it only in the
  single-precision posterior \<open>bayespost32\<close> below. A one-dimensional array is a list, a
  two-dimensional array of shape \<open>(r, c)\<close> is a list of \<open>r\<close> rows of \<open>c\<close> entries, so that
  \<open>a[i, y]\<close> is \<open>a ! i ! y\<close>.

  Every place where the interpreter or the library raises (an index out of range, a
  reshape to a different number of elements, Python's integer division by zero, a
  parameter read before it has data) is a branch that returns the error.
\<close>

datatype error = IndexError | ShapeError | ZeroDivisionError | RuntimeError

type_synonym vec = "real list"
type_synonym mat = "real list list"

text \<open>
  An MNIST image is a \<open>28 \<times> 28 \<times> 1\<close> array of unsigned bytes, kept here as the list of its
  784 bytes in storage order (the order \<open>reshape\<close> keeps); its label is a digit.
\<close>

type_synonym image = "8 word list"
type_synonym sample = "vec \<times> nat"

definition nd_ones :: "nat \<Rightarrow> vec" where
  "nd_ones n = replicate n 1"

definition nd_ones2 :: "nat \<Rightarrow> nat \<Rightarrow> mat" where
  "nd_ones2 r c = replicate r (replicate c 1)"

section \<open>Naive Bayes: the estimation cell\<close>

text \<open>
  \<^verbatim>\<open>def transform(data, label):
    return (nd.floor(data/128)).astype(np.float32), label.astype(np.float32)\<close>

  A byte divided by 128 and rounded down is 0 or 1. The label goes to single precision and
  comes back through \<open>int(label)\<close> unchanged, so it stays a natural number here.
\<close>

definition transform :: "image \<times> nat \<Rightarrow> sample" where
  "transform s = (case s of (data, label) \<Rightarrow>
     (map (\<lambda>p. real (unat p div 128)) data, label))"

text \<open>
  \<^verbatim>\<open>mx.gluon.data.vision.MNIST(train=..., transform=transform)\<close>: iterating over the
  dataset yields the transformed samples in order.
\<close>

definition MNIST :: "(image \<times> nat) list \<Rightarrow> sample list" where
  "MNIST raw = map transform raw"

record counters =
  xcount :: mat
  ycount :: vec

text \<open>
  The body of the training loop:
  \<^verbatim>\<open>y = int(label)
ycount[y] += 1
xcount[:,y] += data.reshape((784))\<close>
\<close>

definition count_sample :: "counters \<Rightarrow> sample \<Rightarrow> error + counters" where
  "count_sample s smp = (case smp of (data, y) \<Rightarrow>
     if length (ycount s) \<le> y then Inl IndexError
     else if length data \<noteq> 784 then Inl ShapeError
     else Inr \<lparr>xcount = map2 (\<lambda>row d. row[y := row ! y + d]) (xcount s) data,
               ycount = (ycount s)[y := ycount s ! y + 1]\<rparr>)"

fun count_loop :: "counters \<Rightarrow> sample list \<Rightarrow> error + counters" where
  "count_loop s [] = Inr s"
| "count_loop s (smp # rest) =
     (case count_sample s smp of Inl e \<Rightarrow> Inl e | Inr s' \<Rightarrow> count_loop s' rest)"

record naive_bayes = counters +
  py :: vec
  px :: mat

text \<open>
  The whole cell: the counters start as arrays of ones, the loop runs over the training
  set, then
  \<^verbatim>\<open>py = ycount / ycount.sum()
px = (xcount / ycount.reshape(1,10))\<close>
  where the second division broadcasts the row of class counts over the 784 rows.
\<close>

definition fit :: "sample list \<Rightarrow> error + naive_bayes" where
  "fit mnist_train =
     (case count_loop \<lparr>xcount = nd_ones2 784 10, ycount = nd_ones 10\<rparr> mnist_train of
        Inl e \<Rightarrow> Inl e
      | Inr s \<Rightarrow> Inr \<lparr>xcount = xcount s, ycount = ycount s,
                      py = map (\<lambda>c. c / sum_list (ycount s)) (ycount s),
                      px = map (\<lambda>row. map2 (/) row (ycount s)) (xcount s)\<rparr>)"

text \<open>The shapes of the counters, and the samples the loop accepts.\<close>

definition mat_shape :: "nat \<Rightarrow> nat \<Rightarrow> mat \<Rightarrow> bool" where
  "mat_shape r c M \<longleftrightarrow> length M = r \<and> (\<forall>row \<in> set M. length row = c)"

definition counters_shape :: "'a counters_scheme \<Rightarrow> bool" where
  "counters_shape s \<longleftrightarrow> mat_shape 784 10 (xcount s) \<and> length (ycount s) = 10"

definition sample_ok :: "sample \<Rightarrow> bool" where
  "sample_ok smp \<longleftrightarrow> length (fst smp) = 784 \<and> snd smp < 10"

text \<open>The samples of a class, and the two sums the counters are compared with.\<close>

definition of_class :: "nat \<Rightarrow> sample list \<Rightarrow> sample list" where
  "of_class y train = filter (\<lambda>smp. snd smp = y) train"

definition class_size :: "nat \<Rightarrow> sample list \<Rightarrow> real" where
  "class_size y train = real (length (of_class y train))"

definition pixel_sum :: "nat \<Rightarrow> nat \<Rightarrow> sample list \<Rightarrow> real" where
  "pixel_sum i y train = sum_list (map (\<lambda>smp. fst smp ! i) (of_class y train))"

section \<open>Naive Bayes: the posterior\<close>

text \<open>
  The array operations the two posterior computations use. A column array of shape
  \<open>(784, 1)\<close> is the list of its entries; multiplying a matrix by it broadcasts entry \<open>i\<close>
  over row \<open>i\<close>. \<open>sum0\<close> and \<open>prod0\<close> reduce along the first axis (\<open>.sum(0)\<close>, \<open>.prod(0)\<close>)
  and return one entry per column.
\<close>

definition bmul :: "mat \<Rightarrow> vec \<Rightarrow> mat" where
  "bmul M col = map2 (\<lambda>row d. map (\<lambda>a. a * d) row) M col"

definition madd :: "mat \<Rightarrow> mat \<Rightarrow> mat" where
  "madd A B = map2 (map2 (+)) A B"

definition one_minus :: "vec \<Rightarrow> vec" where
  "one_minus v = map (\<lambda>a. 1 - a) v"

definition column :: "nat \<Rightarrow> mat \<Rightarrow> vec" where
  "column y M = map (\<lambda>row. row ! y) M"

definition sum0 :: "mat \<Rightarrow> vec" where
  "sum0 M = (case M of [] \<Rightarrow> []
             | row # _ \<Rightarrow> map (\<lambda>y. sum_list (column y M)) [0..<length row])"

definition prod0 :: "mat \<Rightarrow> vec" where
  "prod0 M = (case M of [] \<Rightarrow> []
              | row # _ \<Rightarrow> map (\<lambda>y. prod_list (column y M)) [0..<length row])"

definition nd_max :: "vec \<Rightarrow> real" where
  "nd_max v = Max (set v)"

definition normalize :: "vec \<Rightarrow> vec" where
  "normalize post = map (\<lambda>p. p / sum_list post) post"

text \<open>
  The direct product of the third cell, for a column \<open>data\<close> of 784 entries:
  \<^verbatim>\<open>xprob = (px * data + (1-px) * (1-data))
xprob = xprob.prod(0) * py
xprob = xprob / xprob.sum()\<close>
\<close>

definition xprob_unnormalized :: "'a naive_bayes_scheme \<Rightarrow> vec \<Rightarrow> vec" where
  "xprob_unnormalized nb data =
     map2 (*) (prod0 (madd (bmul (px nb) data)
                           (bmul (map one_minus (px nb)) (one_minus data)))) (py nb)"

definition xprob :: "'a naive_bayes_scheme \<Rightarrow> vec \<Rightarrow> vec" where
  "xprob nb data = normalize (xprob_unnormalized nb data)"

text \<open>
  \<open>nd.log\<close> is finite on positive numbers only: it is minus infinity at 0 and not a
  number below 0.
\<close>

datatype logval = Finite real | MinusInfinity | NotANumber

definition nd_log :: "real \<Rightarrow> logval" where
  "nd_log a = (if 0 < a then Finite (ln a) else if a = 0 then MinusInfinity else NotANumber)"

fun finite_vec :: "logval list \<Rightarrow> vec option" where
  "finite_vec [] = Some []"
| "finite_vec (Finite a # vs) = map_option ((#) a) (finite_vec vs)"
| "finite_vec (_ # vs) = None"

fun finite_mat :: "logval list list \<Rightarrow> mat option" where
  "finite_mat [] = Some []"
| "finite_mat (row # rows) =
     (case finite_vec row of None \<Rightarrow> None
      | Some r \<Rightarrow> map_option ((#) r) (finite_mat rows))"

record tables =
  logpx :: mat
  logpxneg :: mat
  logpy :: vec

text \<open>
  The three tables of the fourth cell,
  \<^verbatim>\<open>logpx = nd.log(px)
logpxneg = nd.log(1-px)
logpy = nd.log(py)\<close>
  The posterior below computes on real numbers, so the tables exist in this model when
  every logarithm is finite, and \<open>log_tables\<close> is \<open>None\<close> otherwise.
\<close>

definition log_tables :: "'a naive_bayes_scheme \<Rightarrow> tables option" where
  "log_tables nb =
     (case finite_mat (map (map nd_log) (px nb)) of None \<Rightarrow> None | Some lpx \<Rightarrow>
      case finite_mat (map (map nd_log) (map one_minus (px nb))) of None \<Rightarrow> None | Some lpxneg \<Rightarrow>
      case finite_vec (map nd_log (py nb)) of None \<Rightarrow> None | Some lpy \<Rightarrow>
        Some \<lparr>logpx = lpx, logpxneg = lpxneg, logpy = lpy\<rparr>)"

text \<open>
  \<^verbatim>\<open>def bayespost(data):
    logpost = logpy.copy()
    logpost += (logpx * data + logpxneg * (1-data)).sum(0)
    logpost -= nd.max(logpost)
    post = nd.exp(logpost).asnumpy()
    post /= np.sum(post)
    return post\<close>
  \<open>logpost\<close> is the array after the second line; \<open>data\<close> is a column of 784 entries, which
  is what \<open>data.reshape((784,1))\<close> hands over at both call sites. With tables of the
  notebook's shapes \<open>logpost\<close> has ten entries, so the maximum is taken over a non-empty
  array and the sum of the exponentials is positive.
\<close>

definition logpost :: "tables \<Rightarrow> vec \<Rightarrow> vec" where
  "logpost t data =
     map2 (+) (logpy t)
       (sum0 (madd (bmul (logpx t) data) (bmul (logpxneg t) (one_minus data))))"

definition bayespost :: "tables \<Rightarrow> vec \<Rightarrow> vec" where
  "bayespost t data =
     (let lp = logpost t data;
          lp = map (\<lambda>a. a - nd_max lp) lp;
          post = map exp lp
      in normalize post)"

definition tables_shape :: "tables \<Rightarrow> bool" where
  "tables_shape t \<longleftrightarrow>
     mat_shape 784 10 (logpx t) \<and> mat_shape 784 10 (logpxneg t) \<and> length (logpy t) = 10"







section \<open>Naive Bayes: the error rate\<close>

record tally =
  ctr :: nat
  err :: nat

text \<open>
  The body of the last loop:
  \<^verbatim>\<open>ctr += 1
x = data.reshape((784,1))
y = int(label)
post = bayespost(x)
if (post[y] < post.max()):
    err += 1\<close>
\<close>

definition np_max :: "vec \<Rightarrow> real" where
  "np_max post = Max (set post)"

definition score_sample :: "tables \<Rightarrow> tally \<Rightarrow> sample \<Rightarrow> error + tally" where
  "score_sample t s smp = (case smp of (data, y) \<Rightarrow>
     if length data \<noteq> 784 then Inl ShapeError
     else let post = bayespost t data in
       if length post \<le> y then Inl IndexError
       else Inr \<lparr>ctr = ctr s + 1,
                 err = (if post ! y < np_max post then err s + 1 else err s)\<rparr>)"

fun score_loop :: "tables \<Rightarrow> tally \<Rightarrow> sample list \<Rightarrow> error + tally" where
  "score_loop t s [] = Inr s"
| "score_loop t s (smp # rest) =
     (case score_sample t s smp of Inl e \<Rightarrow> Inl e | Inr s' \<Rightarrow> score_loop t s' rest)"

text \<open>
  The cell: both counters start at 0 and the quotient \<open>err/ctr\<close> of two Python integers is
  printed; dividing by the integer 0 raises.
\<close>

definition error_rate :: "tables \<Rightarrow> sample list \<Rightarrow> error + real" where
  "error_rate t mnist_test =
     (case score_loop t \<lparr>ctr = 0, err = 0\<rparr> mnist_test of
        Inl e \<Rightarrow> Inl e
      | Inr s \<Rightarrow> if ctr s = 0 then Inl ZeroDivisionError
                 else Inr (real (err s) / real (ctr s)))"

text \<open>A sample counts as an error when its own label's posterior is below the largest.\<close>

definition misclassified :: "tables \<Rightarrow> sample \<Rightarrow> bool" where
  "misclassified t smp \<longleftrightarrow>
     bayespost t (fst smp) ! snd smp < Max (set (bayespost t (fst smp)))"

text \<open>
  The posterior as the product formula states it: entry \<open>y\<close> is
  \<open>py[y] * prod_i (px[i,y] * x[i] + (1 - px[i,y]) * (1 - x[i]))\<close> divided by the sum of
  these products over the ten classes.
\<close>

definition direct_product :: "'a naive_bayes_scheme \<Rightarrow> vec \<Rightarrow> nat \<Rightarrow> real" where
  "direct_product nb x y =
     py nb ! y * prod_list (map (\<lambda>i. px nb ! i ! y * x ! i +
                                        (1 - px nb ! i ! y) * (1 - x ! i)) [0..<784])"

definition direct_posterior :: "'a naive_bayes_scheme \<Rightarrow> vec \<Rightarrow> vec" where
  "direct_posterior nb x =
     map (\<lambda>y. direct_product nb x y / sum_list (map (direct_product nb x) [0..<10])) [0..<10]"

section \<open>Sample inputs\<close>

text \<open>
  Two small raw datasets: one all-black image of every digit, and an all-white 0 next to an
  all-black 1.
\<close>

definition blank_digits :: "(image \<times> nat) list" where
  "blank_digits = map (\<lambda>l. (replicate 784 0, l)) [0..<10]"

definition white_zero :: "(image \<times> nat) list" where
  "white_zero = [(replicate 784 255, 0), (replicate 784 0, 1)]"

text \<open>
  The tables of a model in which every pixel is on with probability one half in every
  class and the ten classes are equally likely.
\<close>

definition half_tables :: tables where
  "half_tables = \<lparr>logpx = replicate 784 (replicate 10 (ln (1/2))),
                  logpxneg = replicate 784 (replicate 10 (ln (1/2))),
                  logpy = replicate 10 (ln (1/10))\<rparr>"

text \<open>
  The same pixel tables with a prior of one half for the digit 0 and one eighteenth for
  each other digit.
\<close>

definition skewed_tables :: tables where
  "skewed_tables = \<lparr>logpx = replicate 784 (replicate 10 (ln (1/2))),
                    logpxneg = replicate 784 (replicate 10 (ln (1/2))),
                    logpy = ln (1/2) # replicate 9 (ln (1/18))\<rparr>"

section \<open>Parameter management: the tied layers\<close>

text \<open>
  The last cell of the parameter notebook builds a network in which two layers use the
  same parameters. Layers, parameter dictionaries and parameters are objects of the layer
  library, which is not among the sources: \<open>dict_get\<close>, \<open>Dense\<close>, \<open>init_parameter\<close>,
  \<open>data_of\<close>, \<open>getitem\<close> and \<open>setitem\<close> are modelled from the library's behaviour, as the
  notebook describes and uses it; \<open>build_net\<close> and \<open>shared_net\<close> are the cell. The model
  keeps the parameter objects and their arrays in a store, indexed by address, so that two
  layers can hold the same parameter. A parameter has no array until it is initialized. A
  bias is kept as a matrix of one row.
\<close>

type_synonym addr = nat

record parameter =
  pname :: string
  pdata :: "addr option"

record param_dict =
  prefix :: string
  own :: "(string \<times> addr) list"
  shared :: "(string \<times> addr) list"

record dense =
  units :: nat
  params :: param_dict
  weight :: addr
  bias :: addr

record gluon =
  parameters :: "addr \<rightharpoonup> parameter"
  ndarrays :: "addr \<rightharpoonup> mat"
  next_addr :: addr
  name_counter :: nat

text \<open>
  The library names a new layer \<open>dense0_\<close>, \<open>dense1_\<close>, ... from a running counter, and its
  parameters \<open>dense0_weight\<close>, \<open>dense0_bias\<close>.
\<close>

fun decimal :: "nat \<Rightarrow> string" where
  "decimal n = (if n < 10 then [char_of (48 + n)]
                else decimal (n div 10) @ [char_of (48 + n mod 10)])"

text \<open>
  \<open>ParameterDict.get(name)\<close>: the parameter of that name, taken from the dictionary itself,
  else from the dictionary it shares with, else created.
\<close>

definition dict_get :: "param_dict \<Rightarrow> string \<Rightarrow> gluon \<Rightarrow> (addr \<times> param_dict) \<times> gluon" where
  "dict_get d name s =
     (let full = prefix d @ name in
      case map_of (own d) full of
        Some p \<Rightarrow> ((p, d), s)
      | None \<Rightarrow>
          (case map_of (shared d) full of
             Some p \<Rightarrow> ((p, d\<lparr>own := own d @ [(full, p)]\<rparr>), s)
           | None \<Rightarrow>
               (let p = next_addr s in
                ((p, d\<lparr>own := own d @ [(full, p)]\<rparr>),
                 s\<lparr>parameters := (parameters s)(p \<mapsto> \<lparr>pname = full, pdata = None\<rparr>),
                   next_addr := p + 1\<rparr>))))"

text \<open>
  \<open>nn.Dense(units, params=...)\<close>: the layer gets a dictionary of its own, or one that shares
  with the dictionary handed over (and carries its prefix), and asks it for \<open>weight\<close> and
  \<open>bias\<close>.
\<close>

definition Dense :: "nat \<Rightarrow> param_dict option \<Rightarrow> gluon \<Rightarrow> dense \<times> gluon" where
  "Dense n given s =
     (let name = ''dense'' @ decimal (name_counter s) @ ''_'';
          s = s\<lparr>name_counter := name_counter s + 1\<rparr>;
          d = (case given of
                 None \<Rightarrow> \<lparr>prefix = name, own = [], shared = []\<rparr>
               | Some g \<Rightarrow> \<lparr>prefix = prefix g, own = [], shared = own g\<rparr>);
          ((w, d), s) = dict_get d ''weight'' s;
          ((b, d), s) = dict_get d ''bias'' s
      in (\<lparr>units = n, params = d, weight = w, bias = b\<rparr>, s))"

text \<open>
  \<open>net.initialize()\<close> followed by the first forward pass \<open>net(x)\<close>: every parameter that has
  no array yet gets one, filled by the initializer. The initializer draws at random; here
  it is any function \<open>init\<close> from the parameter's name to the array.
\<close>

definition init_parameter :: "(string \<Rightarrow> mat) \<Rightarrow> addr \<Rightarrow> gluon \<Rightarrow> gluon" where
  "init_parameter init p s =
     (case parameters s p of
        None \<Rightarrow> s
      | Some par \<Rightarrow>
          (case pdata par of
             Some a \<Rightarrow> s
           | None \<Rightarrow>
               (let a = next_addr s in
                s\<lparr>parameters := (parameters s)(p \<mapsto> par\<lparr>pdata := Some a\<rparr>),
                  ndarrays := (ndarrays s)(a \<mapsto> init (pname par)),
                  next_addr := a + 1\<rparr>)))"

definition initialize :: "(string \<Rightarrow> mat) \<Rightarrow> dense list \<Rightarrow> gluon \<Rightarrow> gluon" where
  "initialize init net s =
     fold (\<lambda>l s. init_parameter init (bias l) (init_parameter init (weight l) s)) net s"

text \<open>\<open>p.data()\<close>, \<open>a[i, j]\<close> and \<open>a[i, j] = v\<close>.\<close>

definition data_of :: "gluon \<Rightarrow> addr \<Rightarrow> error + addr" where
  "data_of s p = (case parameters s p of
                 None \<Rightarrow> Inl RuntimeError
               | Some par \<Rightarrow> (case pdata par of None \<Rightarrow> Inl RuntimeError | Some a \<Rightarrow> Inr a))"

definition getitem :: "gluon \<Rightarrow> addr \<Rightarrow> nat \<Rightarrow> nat \<Rightarrow> error + real" where
  "getitem s a i j = (case ndarrays s a of
                        None \<Rightarrow> Inl RuntimeError
                      | Some m \<Rightarrow> if i < length m \<and> j < length (m ! i) then Inr (m ! i ! j)
                                  else Inl IndexError)"

definition setitem :: "addr \<Rightarrow> nat \<Rightarrow> nat \<Rightarrow> real \<Rightarrow> gluon \<Rightarrow> error + gluon" where
  "setitem a i j v s = (case ndarrays s a of
                          None \<Rightarrow> Inl RuntimeError
                        | Some m \<Rightarrow> if i < length m \<and> j < length (m ! i)
                                    then Inr (s\<lparr>ndarrays := (ndarrays s)(a \<mapsto> m[i := (m ! i)[j := v]])\<rparr>)
                                    else Inl IndexError)"

text \<open>
  \<^verbatim>\<open>net = nn.Sequential()
shared = nn.Dense(8, activation='relu')
net.add(nn.Dense(8, activation='relu'),
        shared,
        nn.Dense(8, activation='relu', params=shared.params),
        nn.Dense(10))
net.initialize()
x = nd.random.uniform(shape=(2, 20))
net(x)\<close>
\<close>

definition build_net :: "gluon \<Rightarrow> dense list \<times> gluon" where
  "build_net s =
     (let (shared, s) = Dense 8 None s;
          (l0, s) = Dense 8 None s;
          (l2, s) = Dense 8 (Some (params shared)) s;
          (l3, s) = Dense 10 None s
      in ([l0, shared, l2, l3], s))"

definition shared_net :: "(string \<Rightarrow> mat) \<Rightarrow> gluon \<Rightarrow> dense list \<times> gluon" where
  "shared_net init s = (let (net, s) = build_net s in (net, initialize init net s))"

text \<open>\<open>net[k].weight.data()\<close> as a value, and \<open>net[k].weight.data()[i, j] = v\<close>.\<close>

definition weight_data :: "gluon \<Rightarrow> dense list \<Rightarrow> nat \<Rightarrow> error + mat" where
  "weight_data s net k =
     (if length net \<le> k then Inl IndexError
      else case data_of s (weight (net ! k)) of
             Inl e \<Rightarrow> Inl e
           | Inr a \<Rightarrow> (case ndarrays s a of None \<Rightarrow> Inl RuntimeError | Some m \<Rightarrow> Inr m))"

definition set_weight :: "dense list \<Rightarrow> nat \<Rightarrow> nat \<Rightarrow> nat \<Rightarrow> real \<Rightarrow> gluon \<Rightarrow> error + gluon" where
  "set_weight net k i j v s =
     (if length net \<le> k then Inl IndexError
      else case data_of s (weight (net ! k)) of
             Inl e \<Rightarrow> Inl e
           | Inr a \<Rightarrow> setitem a i j v s)"

text \<open>
  A parameter that has an array satisfying \<open>P\<close>, and one that is still waiting for its
  array.
\<close>

definition has_data :: "(mat \<Rightarrow> bool) \<Rightarrow> gluon \<Rightarrow> addr \<Rightarrow> bool" where
  "has_data P s p \<longleftrightarrow> (\<exists>a m. data_of s p = Inr a \<and> ndarrays s a = Some m \<and> P m)"

definition pending :: "gluon \<Rightarrow> addr \<Rightarrow> bool" where
  "pending s p \<longleftrightarrow> (\<exists>par. parameters s p = Some par \<and> pdata par = None)"

text \<open>A store with nothing in it, and an initializer that fills every array with halves.\<close>

definition fresh_kernel :: gluon where
  "fresh_kernel = \<lparr>parameters = Map.empty, ndarrays = Map.empty, next_addr = 0, name_counter = 0\<rparr>"

definition halves :: "string \<Rightarrow> mat" where
  "halves name = replicate 8 (replicate 8 (1/2))"


section \<open>The notebooks as sequences of statements\<close>

text \<open>
  For the question which names a notebook depends on, a code cell is the list of its
  top-level statements, and a statement is the list of names it reads from the interpreter's
  namespace and the list of names it binds there (by assignment, import, \<open>def\<close>, \<open>class\<close> or
  as the target of a \<open>for\<close>). A compound statement is one statement: it reads the names it
  uses before binding them itself. A \<open>def\<close> or \<open>class\<close> is charged with the free names of its
  body, which are read when the body runs. The shell and magic lines (\<open>!pip\<close>, \<open>%matplotlib\<close>)
  read and bind no name. Attribute names and keyword arguments are not names of the
  namespace.
\<close>

datatype stmt = Stmt (reads: "string list") (binds: "string list")

record notebook =
  title :: string
  cells :: "stmt list list"

text \<open>The four notebooks, cell by cell; each statement carries its first source line.\<close>

definition naive_bayes_notebook :: notebook where
  "naive_bayes_notebook = \<lparr>title = ''naive-bayes'', cells = [
      [
       Stmt [] [],  \<comment> \<open>!pip install mxnet-cu100\<close>
       Stmt [] [],  \<comment> \<open>!pip install d2l\<close>
       Stmt [] [],  \<comment> \<open>%matplotlib inline\<close>
       Stmt [] [''plt''],  \<comment> \<open>from matplotlib import pyplot as plt\<close>
       Stmt [] [''display''],  \<comment> \<open>from IPython import display\<close>
       Stmt [''display''] [],  \<comment> \<open>display.set_matplotlib_formats('svg')\<close>
       Stmt [] [''mx''],  \<comment> \<open>import mxnet as mx\<close>
       Stmt [] [''nd''],  \<comment> \<open>from mxnet import nd\<close>
       Stmt [] [''np''],  \<comment> \<open>import numpy as np\<close>
       Stmt [''nd'', ''np''] [''transform''],  \<comment> \<open>def transform(data, label):\<close>
       Stmt [''mx'', ''transform''] [''mnist_train''],
         \<comment> \<open>mnist_train = mx.gluon.data.vision.MNIST(train=True, transfor...\<close>
       Stmt [''mx'', ''transform''] [''mnist_test''],
         \<comment> \<open>mnist_test  = mx.gluon.data.vision.MNIST(train=False, transfo...\<close>
       Stmt [''nd''] [''xcount''],  \<comment> \<open>xcount = nd.ones((784,10))\<close>
       Stmt [''nd''] [''ycount''],  \<comment> \<open>ycount = nd.ones((10))\<close>
       Stmt [''mnist_train'', ''int'', ''ycount'', ''xcount''] [''data'', ''label'', ''y''],
         \<comment> \<open>for data, label in mnist_train:\<close>
       Stmt [''ycount''] [''py''],  \<comment> \<open>py = ycount / ycount.sum()\<close>
       Stmt [''xcount'', ''ycount''] [''px'']
         \<comment> \<open>px = (xcount / ycount.reshape(1,10))\<close>
      ],
      [
       Stmt [] [''plt''],  \<comment> \<open>import matplotlib.pyplot as plt\<close>
       Stmt [''plt''] [''fig'', ''figarr''],
         \<comment> \<open>fig, figarr = plt.subplots(1, 10, figsize=(10, 10))\<close>
       Stmt [''range'', ''figarr'', ''xcount''] [''i''],
         \<comment> \<open>for i in range(10):\<close>
       Stmt [''plt''] [],  \<comment> \<open>plt.show()\<close>
       Stmt [''print'', ''py''] []  \<comment> \<open>print('Class probabilities', py)\<close>
      ],
      [
       Stmt [''mnist_test''] [''data'', ''label''],
         \<comment> \<open>data, label = mnist_test[0]\<close>
       Stmt [''data''] [''data''],  \<comment> \<open>data = data.reshape((784,1))\<close>
       Stmt [''px'', ''data''] [''xprob''],
         \<comment> \<open>xprob = (px * data + (1-px) * (1-data))\<close>
       Stmt [''xprob'', ''py''] [''xprob''],  \<comment> \<open>xprob = xprob.prod(0) * py\<close>
       Stmt [''print'', ''xprob''] [],
         \<comment> \<open>print('Unnormalized Probabilities', xprob)\<close>
       Stmt [''xprob''] [''xprob''],  \<comment> \<open>xprob = xprob / xprob.sum()\<close>
       Stmt [''print'', ''xprob''] []
         \<comment> \<open>print('Normalized Probabilities', xprob)\<close>
      ],
      [
       Stmt [''nd'', ''px''] [''logpx''],  \<comment> \<open>logpx = nd.log(px)\<close>
       Stmt [''nd'', ''px''] [''logpxneg''],  \<comment> \<open>logpxneg = nd.log(1-px)\<close>
       Stmt [''nd'', ''py''] [''logpy''],  \<comment> \<open>logpy = nd.log(py)\<close>
       Stmt [''logpy'', ''logpx'', ''logpxneg'', ''nd'', ''np''] [''bayespost''],
         \<comment> \<open>def bayespost(data):\<close>
       Stmt [''plt''] [''fig'', ''figarr''],
         \<comment> \<open>fig, figarr = plt.subplots(2, 10, figsize=(10, 3))\<close>
       Stmt [] [''ctr''],  \<comment> \<open>ctr = 0\<close>
       Stmt [''mnist_test'', ''int'', ''bayespost'', ''figarr'', ''ctr'', ''range'']
         [''data'', ''label'', ''x'', ''y'', ''post'', ''ctr''],
         \<comment> \<open>for data, label in mnist_test:\<close>
       Stmt [''plt''] []  \<comment> \<open>plt.show()\<close>
      ],
      [
       Stmt [] [''ctr''],  \<comment> \<open>ctr = 0\<close>
       Stmt [] [''err''],  \<comment> \<open>err = 0\<close>
       Stmt [''mnist_test'', ''ctr'', ''int'', ''bayespost'', ''err'']
         [''data'', ''label'', ''ctr'', ''x'', ''y'', ''post'', ''err''],
         \<comment> \<open>for data, label in mnist_test:\<close>
       Stmt [''print'', ''err'', ''ctr''] []
         \<comment> \<open>print('Naive Bayes has an error rate of', err/ctr)\<close>
      ]
    ]\<rparr>"

definition parameters_notebook :: notebook where
  "parameters_notebook = \<lparr>title = ''parameters'', cells = [
      [
       Stmt [] [],  \<comment> \<open>!pip install mxnet-cu100\<close>
       Stmt [] [],  \<comment> \<open>!pip install d2l\<close>
       Stmt [] [''init'', ''nd''],  \<comment> \<open>from mxnet import init, nd\<close>
       Stmt [] [''nn''],  \<comment> \<open>from mxnet.gluon import nn\<close>
       Stmt [''nn''] [''net''],  \<comment> \<open>net = nn.Sequential()\<close>
       Stmt [''net'', ''nn''] [],
         \<comment> \<open>net.add(nn.Dense(256, activation='relu'))\<close>
       Stmt [''net'', ''nn''] [],  \<comment> \<open>net.add(nn.Dense(10))\<close>
       Stmt [''net''] [],  \<comment> \<open>net.initialize()\<close>
       Stmt [''nd''] [''x''],  \<comment> \<open>x = nd.random.uniform(shape=(2, 20))\<close>
       Stmt [''net'', ''x''] []  \<comment> \<open>net(x)\<close>
      ],
      [
       Stmt [''print'', ''net''] [],  \<comment> \<open>print(net[0].params)\<close>
       Stmt [''print'', ''net''] []  \<comment> \<open>print(net[1].params)\<close>
      ],
      [
       Stmt [''print'', ''net''] [],  \<comment> \<open>print(net[1].bias)\<close>
       Stmt [''print'', ''net''] []  \<comment> \<open>print(net[1].bias.data())\<close>
      ],
      [
       Stmt [''print'', ''net''] [],
         \<comment> \<open>print(net[0].params['dense0_weight'])\<close>
       Stmt [''print'', ''net''] []
         \<comment> \<open>print(net[0].params['dense0_weight'].data())\<close>
      ],
      [
       Stmt [''net''] []  \<comment> \<open>net[0].weight.grad()\<close>
      ],
      [
       Stmt [''print'', ''net''] [],  \<comment> \<open>print(net[0].collect_params())\<close>
       Stmt [''print'', ''net''] []  \<comment> \<open>print(net.collect_params())\<close>
      ],
      [
       Stmt [''net''] []  \<comment> \<open>net.collect_params()['dense1_bias'].data()\<close>
      ],
      [
       Stmt [''print'', ''net''] [],
         \<comment> \<open>print(net.collect_params('.*weight'))\<close>
       Stmt [''print'', ''net''] []  \<comment> \<open>print(net.collect_params('dense0.*'))\<close>
      ],
      [
       Stmt [''nn''] [''block1''],  \<comment> \<open>def block1():\<close>
       Stmt [''nn'', ''range'', ''block1''] [''block2''],  \<comment> \<open>def block2():\<close>
       Stmt [''nn''] [''rgnet''],  \<comment> \<open>rgnet = nn.Sequential()\<close>
       Stmt [''rgnet'', ''block2''] [],  \<comment> \<open>rgnet.add(block2())\<close>
       Stmt [''rgnet'', ''nn''] [],  \<comment> \<open>rgnet.add(nn.Dense(10))\<close>
       Stmt [''rgnet''] [],  \<comment> \<open>rgnet.initialize()\<close>
       Stmt [''rgnet'', ''x''] []  \<comment> \<open>rgnet(x)\<close>
      ],
      [
       Stmt [''print'', ''rgnet''] [],  \<comment> \<open>print(rgnet.collect_params)\<close>
       Stmt [''print'', ''rgnet''] []  \<comment> \<open>print(rgnet.collect_params())\<close>
      ],
      [
       Stmt [''rgnet''] []  \<comment> \<open>rgnet[0][1][0].bias.data()\<close>
      ],
      [
       Stmt [''net'', ''init''] [],
         \<comment> \<open>net.initialize(init=init.Normal(sigma=0.01), force_reinit=True)\<close>
       Stmt [''net''] []  \<comment> \<open>net[0].weight.data()[0]\<close>
      ],
      [
       Stmt [''net'', ''init''] [],
         \<comment> \<open>net.initialize(init=init.Constant(1), force_reinit=True)\<close>
       Stmt [''net''] []  \<comment> \<open>net[0].weight.data()[0]\<close>
      ],
      [
       Stmt [''net'', ''init''] [],
         \<comment> \<open>net[1].initialize(init=init.Constant(42), force_reinit=True)\<close>
       Stmt [''net'', ''init''] [],
         \<comment> \<open>net[0].weight.initialize(init=init.Xavier(), force_reinit=True)\<close>
       Stmt [''print'', ''net''] [],  \<comment> \<open>print(net[1].weight.data()[0,0])\<close>
       Stmt [''print'', ''net''] []  \<comment> \<open>print(net[0].weight.data()[0])\<close>
      ],
      [
       Stmt [''init'', ''print'', ''nd''] [''MyInit''],
         \<comment> \<open>class MyInit(init.Initializer):\<close>
       Stmt [''net'', ''MyInit''] [],
         \<comment> \<open>net.initialize(MyInit(), force_reinit=True)\<close>
       Stmt [''net''] []  \<comment> \<open>net[0].weight.data()[0]\<close>
      ],
      [
       Stmt [''net''] [],  \<comment> \<open>net[0].weight.data()[:] += 1\<close>
       Stmt [''net''] [],  \<comment> \<open>net[0].weight.data()[0,0] = 42\<close>
       Stmt [''net''] []  \<comment> \<open>net[0].weight.data()[0]\<close>
      ],
      [
       Stmt [''nn''] [''net''],  \<comment> \<open>net = nn.Sequential()\<close>
       Stmt [''nn''] [''shared''],
         \<comment> \<open>shared = nn.Dense(8, activation='relu')\<close>
       Stmt [''net'', ''nn'', ''shared''] [],
         \<comment> \<open>net.add(nn.Dense(8, activation='relu'),\<close>
       Stmt [''net''] [],  \<comment> \<open>net.initialize()\<close>
       Stmt [''nd''] [''x''],  \<comment> \<open>x = nd.random.uniform(shape=(2, 20))\<close>
       Stmt [''net'', ''x''] [],  \<comment> \<open>net(x)\<close>
       Stmt [''print'', ''net''] [],
         \<comment> \<open>print(net[1].weight.data()[0] == net[2].weight.data()[0])\<close>
       Stmt [''net''] [],  \<comment> \<open>net[1].weight.data()[0,0] = 100\<close>
       Stmt [''print'', ''net''] []
         \<comment> \<open>print(net[1].weight.data()[0] == net[2].weight.data()[0])\<close>
      ]
    ]\<rparr>"

definition part_000_notebook :: notebook where
  "part_000_notebook = \<lparr>title = ''part_000'', cells = [
      [
       Stmt [] [],  \<comment> \<open>!pip install mxnet-cu100\<close>
       Stmt [] [],  \<comment> \<open>!pip install d2l\<close>
       Stmt [] [''nd''],  \<comment> \<open>from mxnet import nd\<close>
       Stmt [] [''time''],  \<comment> \<open>from time import time\<close>
       Stmt [''nd''] [''a''],  \<comment> \<open>a = nd.ones(shape=10000)\<close>
       Stmt [''nd''] [''b'']  \<comment> \<open>b = nd.ones(shape=10000)\<close>
      ],
      [
       Stmt [''time''] [''start''],  \<comment> \<open>start = time()\<close>
       Stmt [''nd''] [''c''],  \<comment> \<open>c = nd.zeros(shape=10000)\<close>
       Stmt [''range'', ''a'', ''b'', ''c''] [''i''],
         \<comment> \<open>for i in range(10000):\<close>
       Stmt [''time'', ''start''] []  \<comment> \<open>time() - start\<close>
      ],
      [
       Stmt [''time''] [''start''],  \<comment> \<open>start = time()\<close>
       Stmt [''a'', ''b''] [''d''],  \<comment> \<open>d = a + b\<close>
       Stmt [''time'', ''start''] []  \<comment> \<open>time() - start\<close>
      ],
      [
       Stmt [] [],  \<comment> \<open>%matplotlib inline\<close>
       Stmt [] [''plt''],  \<comment> \<open>from matplotlib import pyplot as plt\<close>
       Stmt [] [''display''],  \<comment> \<open>from IPython import display\<close>
       Stmt [] [''nd''],  \<comment> \<open>from mxnet import nd\<close>
       Stmt [] [''math''],  \<comment> \<open>import math\<close>
       Stmt [''nd''] [''x''],  \<comment> \<open>x = nd.arange(-7, 7, 0.01)\<close>
       Stmt [] [''parameters''],  \<comment> \<open>parameters = [(0,1), (0,2), (3,1)]\<close>
       Stmt [''display''] [],  \<comment> \<open>display.set_matplotlib_formats('svg')\<close>
       Stmt [''plt''] [],  \<comment> \<open>plt.figure(figsize=(10, 6))\<close>
       Stmt [''parameters'', ''math'', ''nd'', ''x'', ''plt'', ''str''] [''mu'', ''sigma'', ''p''],
         \<comment> \<open>for (mu, sigma) in parameters:\<close>
       Stmt [''plt''] [],  \<comment> \<open>plt.legend()\<close>
       Stmt [''plt''] []  \<comment> \<open>plt.show()\<close>
      ]
    ]\<rparr>"

definition part_001_notebook :: notebook where
  "part_001_notebook = \<lparr>title = ''part_001'', cells = []\<rparr>"


definition repository :: "notebook list" where
  "repository =
     [naive_bayes_notebook, parameters_notebook, part_000_notebook, part_001_notebook]"

text \<open>The names of the interpreter that the notebooks use without defining them.\<close>

definition builtins :: "string list" where
  "builtins = [''print'', ''int'', ''range'', ''str'']"

definition statements :: "notebook \<Rightarrow> stmt list" where
  "statements nb = concat (cells nb)"

text \<open>
  Every name a statement reads is known: it is one of the names known at the start or has
  been bound by an earlier statement.
\<close>

fun defined_before_use :: "string list \<Rightarrow> stmt list \<Rightarrow> bool" where
  "defined_before_use known [] = True"
| "defined_before_use known (st # rest) =
     (list_all (\<lambda>n. n \<in> set known) (reads st) \<and> defined_before_use (binds st @ known) rest)"

definition self_contained :: "notebook \<Rightarrow> bool" where
  "self_contained nb = defined_before_use builtins (statements nb)"

section \<open>The counting loop\<close>

lemma count_sample_ok:
  assumes "counters_shape s" and "sample_ok smp"
  shows "\<exists>s'. count_sample s smp = Inr s' \<and> counters_shape s' \<and>
           (\<forall>y<10. ycount s' ! y = ycount s ! y + (if snd smp = y then 1 else 0)) \<and>
           (\<forall>i<784. \<forall>y<10. xcount s' ! i ! y =
              xcount s ! i ! y + (if snd smp = y then fst smp ! i else 0))"
proof -
  obtain data l where smp: "smp = (data, l)" by (cases smp)
  from assms have len: "length (xcount s) = 784" "length (ycount s) = 10"
    "length data = 784" "l < 10"
    and rows: "\<And>row. row \<in> set (xcount s) \<Longrightarrow> length row = 10"
    by (auto simp: counters_shape_def mat_shape_def sample_ok_def smp)
  let ?s' = "\<lparr>xcount = map2 (\<lambda>row d. row[l := row ! l + d]) (xcount s) data,
              ycount = (ycount s)[l := ycount s ! l + 1]\<rparr>"
  have run: "count_sample s smp = Inr ?s'"
    using len by (simp add: count_sample_def smp)
  have shape: "counters_shape ?s'"
    using len rows by (auto simp: counters_shape_def mat_shape_def dest!: set_zip_leftD)
  have yc: "\<forall>y<10. ycount ?s' ! y = ycount s ! y + (if snd smp = y then 1 else 0)"
    using len by (auto simp: smp nth_list_update)
  have xc: "\<forall>i<784. \<forall>y<10. xcount ?s' ! i ! y =
              xcount s ! i ! y + (if snd smp = y then fst smp ! i else 0)"
  proof (intro allI impI)
    fix i y :: nat
    assume i: "i < 784" and y: "y < 10"
    have "length (xcount s ! i) = 10" using rows len i by simp
    then show "xcount ?s' ! i ! y =
        xcount s ! i ! y + (if snd smp = y then fst smp ! i else 0)"
      using len i y by (simp add: smp nth_list_update)
  qed
  from run shape yc xc show ?thesis by blast
qed

lemma count_loop_ok:
  assumes "counters_shape s" and "\<forall>smp \<in> set train. sample_ok smp"
  shows "\<exists>s'. count_loop s train = Inr s' \<and> counters_shape s' \<and>
           (\<forall>y<10. ycount s' ! y = ycount s ! y + class_size y train) \<and>
           (\<forall>i<784. \<forall>y<10. xcount s' ! i ! y = xcount s ! i ! y + pixel_sum i y train)"
  using assms
proof (induction train arbitrary: s)
  case Nil
  then show ?case by (simp add: class_size_def pixel_sum_def of_class_def)
next
  case (Cons smp rest)
  from Cons.prems have ok: "sample_ok smp" and rest: "\<forall>smp \<in> set rest. sample_ok smp"
    by simp_all
  from count_sample_ok [OF Cons.prems(1) ok] obtain s1 where
    s1: "count_sample s smp = Inr s1" "counters_shape s1"
    and y1: "\<And>y. y < 10 \<Longrightarrow> ycount s1 ! y = ycount s ! y + (if snd smp = y then 1 else 0)"
    and x1: "\<And>i y. i < 784 \<Longrightarrow> y < 10 \<Longrightarrow>
               xcount s1 ! i ! y = xcount s ! i ! y + (if snd smp = y then fst smp ! i else 0)"
    by blast
  from Cons.IH [OF s1(2) rest] obtain s2 where
    s2: "count_loop s1 rest = Inr s2" "counters_shape s2"
    and y2: "\<And>y. y < 10 \<Longrightarrow> ycount s2 ! y = ycount s1 ! y + class_size y rest"
    and x2: "\<And>i y. i < 784 \<Longrightarrow> y < 10 \<Longrightarrow>
               xcount s2 ! i ! y = xcount s1 ! i ! y + pixel_sum i y rest"
    by blast
  have run: "count_loop s (smp # rest) = Inr s2"
    using s1(1) s2(1) by simp
  have yc: "\<forall>y<10. ycount s2 ! y = ycount s ! y + class_size y (smp # rest)"
    using y1 y2 by (simp add: class_size_def of_class_def)
  have xc: "\<forall>i<784. \<forall>y<10. xcount s2 ! i ! y = xcount s ! i ! y + pixel_sum i y (smp # rest)"
    using x1 x2 by (simp add: pixel_sum_def of_class_def)
  from run s2(2) yc xc show ?case by blast
qed

section \<open>The estimates\<close>

lemma transform_binary:
  assumes "smp \<in> set (MNIST raw)" and "v \<in> set (fst smp)"
  shows "v = 0 \<or> v = 1"
proof -
  from assms obtain p :: "8 word" where v: "v = real (unat p div 128)"
    by (auto simp: MNIST_def transform_def)
  have "unat p < 2 ^ 8" using unsigned_less [of p] by simp
  then have "unat p div 128 < 2" by simp
  then have "unat p div 128 = 0 \<or> unat p div 128 = 1" by linarith
  then show ?thesis unfolding v by auto
qed

lemma class_sizes_total:
  assumes "\<forall>smp \<in> set train. snd smp < n"
  shows "(\<Sum>y<n. class_size y train) = real (length train)"
  using assms
proof (induction train)
  case Nil
  then show ?case by (simp add: class_size_def of_class_def)
next
  case (Cons smp rest)
  then have l: "snd smp < n" and IH: "(\<Sum>y<n. class_size y rest) = real (length rest)"
    by simp_all
  have "(\<Sum>y<n. class_size y (smp # rest)) =
        (\<Sum>y<n. (if snd smp = y then 1 else 0) + class_size y rest)"
    by (intro sum.cong) (simp_all add: class_size_def of_class_def)
  also have "\<dots> = (\<Sum>y<n. if snd smp = y then 1 else 0) + (\<Sum>y<n. class_size y rest)"
    by (simp add: sum.distrib)
  also have "(\<Sum>y<n. if snd smp = y then 1 else 0) = (1::real)"
    using l by simp
  finally show ?case using IH by simp
qed

lemma fit_ok:
  assumes "\<forall>smp \<in> set train. sample_ok smp"
  shows "\<exists>nb. fit train = Inr nb \<and> counters_shape nb \<and>
           (\<forall>y<10. ycount nb ! y = 1 + class_size y train) \<and>
           (\<forall>i<784. \<forall>y<10. xcount nb ! i ! y = 1 + pixel_sum i y train) \<and>
           py nb = map (\<lambda>c. c / sum_list (ycount nb)) (ycount nb) \<and>
           px nb = map (\<lambda>row. map2 (/) row (ycount nb)) (xcount nb)"
proof -
  let ?s0 = "\<lparr>xcount = nd_ones2 784 10, ycount = nd_ones 10\<rparr>"
  have s0: "counters_shape ?s0"
    by (simp add: counters_shape_def mat_shape_def nd_ones_def nd_ones2_def)
  from count_loop_ok [OF s0 assms] obtain s where
    s: "count_loop ?s0 train = Inr s" "counters_shape s"
    and yc: "\<And>y. y < 10 \<Longrightarrow> ycount s ! y = ycount ?s0 ! y + class_size y train"
    and xc: "\<And>i y. i < 784 \<Longrightarrow> y < 10 \<Longrightarrow>
               xcount s ! i ! y = xcount ?s0 ! i ! y + pixel_sum i y train"
    by blast
  let ?nb = "\<lparr>xcount = xcount s, ycount = ycount s,
              py = map (\<lambda>c. c / sum_list (ycount s)) (ycount s),
              px = map (\<lambda>row. map2 (/) row (ycount s)) (xcount s)\<rparr>"
  have run: "fit train = Inr ?nb"
    using s(1) by (simp add: fit_def)
  have shape: "counters_shape ?nb"
    using s(2) by (simp add: counters_shape_def)
  have "\<forall>y<10. ycount ?nb ! y = 1 + class_size y train"
    using yc by (simp add: nd_ones_def)
  moreover have "\<forall>i<784. \<forall>y<10. xcount ?nb ! i ! y = 1 + pixel_sum i y train"
    using xc by (simp add: nd_ones2_def)
  ultimately show ?thesis using run shape by auto
qed


lemma ycount_total:
  assumes "\<forall>smp \<in> set train. sample_ok smp" and "fit train = Inr nb"
  shows "sum_list (ycount nb) = 10 + real (length train)"
proof -
  from fit_ok [OF assms(1)] assms(2) have sh: "counters_shape nb"
    and yc: "\<And>y. y < 10 \<Longrightarrow> ycount nb ! y = 1 + class_size y train"
    by auto
  from sh have len: "length (ycount nb) = 10" by (simp add: counters_shape_def)
  have "sum_list (ycount nb) = (\<Sum>y<10. ycount nb ! y)"
    using len by (simp add: sum_list_sum_nth atLeast0LessThan)
  also have "\<dots> = (\<Sum>y<10. 1 + class_size y train)"
    by (intro sum.cong) (simp_all add: yc)
  also have "\<dots> = 10 + (\<Sum>y<10. class_size y train)"
    by (simp add: sum.distrib)
  also have "(\<Sum>y<10. class_size y train) = real (length train)"
    using assms(1) by (intro class_sizes_total) (simp add: sample_ok_def)
  finally show ?thesis .
qed

text \<open>
  Claim C1. The estimation is frequency counting with add-one smoothing. For every training
  set of 784-pixel samples with labels below 10 the cell runs to its end, and then
  \<open>ycount[y]\<close> is 1 plus the number of samples with label \<open>y\<close>, \<open>xcount[i, y]\<close> is 1 plus
  the sum of pixel \<open>i\<close> of the transformed samples with label \<open>y\<close>, the counts add up to
  10 plus the number of samples, \<open>py\<close> is \<open>ycount\<close> divided by that total and \<open>px[i, y]\<close> is
  \<open>xcount[i, y] / ycount[y]\<close>. The ones come from the initial value of both counters. The
  pixel values play no part in this; those the dataset delivers are 0 or 1 by
  \<open>transform_binary\<close>.
\<close>

theorem fit_counts:
  assumes "\<forall>smp \<in> set train. sample_ok smp"
  shows "\<exists>nb. fit train = Inr nb \<and>
     (\<forall>y<10. ycount nb ! y = 1 + class_size y train) \<and>
     (\<forall>i<784. \<forall>y<10. xcount nb ! i ! y = 1 + pixel_sum i y train) \<and>
     sum_list (ycount nb) = 10 + real (length train) \<and>
     (\<forall>y<10. py nb ! y = ycount nb ! y / sum_list (ycount nb)) \<and>
     (\<forall>i<784. \<forall>y<10. px nb ! i ! y = xcount nb ! i ! y / ycount nb ! y)"
proof -
  from fit_ok [OF assms] obtain nb where run: "fit train = Inr nb"
    and sh: "counters_shape nb"
    and yc: "\<forall>y<10. ycount nb ! y = 1 + class_size y train"
    and xc: "\<forall>i<784. \<forall>y<10. xcount nb ! i ! y = 1 + pixel_sum i y train"
    and py: "py nb = map (\<lambda>c. c / sum_list (ycount nb)) (ycount nb)"
    and px: "px nb = map (\<lambda>row. map2 (/) row (ycount nb)) (xcount nb)"
    by blast
  from sh have len: "length (ycount nb) = 10" "length (xcount nb) = 784"
    and rows: "\<And>i. i < 784 \<Longrightarrow> length (xcount nb ! i) = 10"
    by (simp_all add: counters_shape_def mat_shape_def)
  have tot: "sum_list (ycount nb) = 10 + real (length train)"
    by (rule ycount_total [OF assms run])
  have pyn: "\<forall>y<10. py nb ! y = ycount nb ! y / sum_list (ycount nb)"
    using len by (simp add: py)
  have pxn: "\<forall>i<784. \<forall>y<10. px nb ! i ! y = xcount nb ! i ! y / ycount nb ! y"
    using len rows by (simp add: px)
  from run yc xc tot pyn pxn show ?thesis by blast
qed

text \<open>
  Two images of the digit 3, one all white and one all black, as the dataset delivers
  them through \<open>transform\<close>.
\<close>

theorem fit_counts_witness:
  "\<exists>nb. fit (MNIST [(replicate 784 255, 3), (replicate 784 0, 3)]) = Inr nb \<and>
     ycount nb ! 3 = 3 \<and> ycount nb ! 4 = 1 \<and> xcount nb ! 5 ! 3 = 2 \<and>
     sum_list (ycount nb) = 12 \<and> py nb ! 3 = 3 / 12 \<and> px nb ! 5 ! 3 = 2 / 3"
proof -
  let ?train = "MNIST [(replicate 784 255, 3), (replicate 784 0, 3)]"
  have ok: "\<forall>smp \<in> set ?train. sample_ok smp"
    by (simp add: MNIST_def transform_def sample_ok_def)
  have c3: "class_size 3 ?train = 2" and c4: "class_size 4 ?train = 0"
    and p5: "pixel_sum 5 3 ?train = 1"
    by (simp_all add: class_size_def pixel_sum_def of_class_def MNIST_def transform_def)
  from fit_counts [OF ok] obtain nb where run: "fit ?train = Inr nb"
    and yc: "\<And>y. y < 10 \<Longrightarrow> ycount nb ! y = 1 + class_size y ?train"
    and xc: "\<And>i y. i < 784 \<Longrightarrow> y < 10 \<Longrightarrow> xcount nb ! i ! y = 1 + pixel_sum i y ?train"
    and tot: "sum_list (ycount nb) = 10 + real (length ?train)"
    and pyn: "\<And>y. y < 10 \<Longrightarrow> py nb ! y = ycount nb ! y / sum_list (ycount nb)"
    and pxn: "\<And>i y. i < 784 \<Longrightarrow> y < 10 \<Longrightarrow> px nb ! i ! y = xcount nb ! i ! y / ycount nb ! y"
    by blast
  have y3: "ycount nb ! 3 = 3" using yc [of 3] c3 by simp
  have y4: "ycount nb ! 4 = 1" using yc [of 4] c4 by simp
  have x53: "xcount nb ! 5 ! 3 = 2" using xc [of 5 3] p5 by simp
  have t: "sum_list (ycount nb) = 12" using tot by (simp add: MNIST_def)
  have p3: "py nb ! 3 = 3 / 12" using pyn [of 3] y3 t by simp
  have p53: "px nb ! 5 ! 3 = 2 / 3" using pxn [of 5 3] x53 y3 by simp
  from run y3 y4 x53 t p3 p53 show ?thesis by blast
qed

section \<open>Array operations\<close>

lemma bmul_shape:
  "mat_shape r c M \<Longrightarrow> length col = r \<Longrightarrow> mat_shape r c (bmul M col)"
  by (auto simp: mat_shape_def bmul_def dest!: set_zip_leftD)

lemma bmul_nth:
  "mat_shape r c M \<Longrightarrow> length col = r \<Longrightarrow> i < r \<Longrightarrow> y < c \<Longrightarrow>
     bmul M col ! i ! y = M ! i ! y * col ! i"
  by (simp add: mat_shape_def bmul_def)

lemma madd_shape:
  "mat_shape r c A \<Longrightarrow> mat_shape r c B \<Longrightarrow> mat_shape r c (madd A B)"
proof -
  assume A: "mat_shape r c A" and B: "mat_shape r c B"
  have "length row = c" if "row \<in> set (madd A B)" for row
  proof -
    from that obtain a b where ab: "(a, b) \<in> set (zip A B)" and row: "row = map2 (+) a b"
      by (auto simp: madd_def)
    from ab have "a \<in> set A" "b \<in> set B"
      by (auto dest: set_zip_leftD set_zip_rightD)
    with A B show ?thesis by (simp add: mat_shape_def row)
  qed
  then show ?thesis using A B by (simp add: mat_shape_def madd_def)
qed

lemma madd_nth:
  "mat_shape r c A \<Longrightarrow> mat_shape r c B \<Longrightarrow> i < r \<Longrightarrow> y < c \<Longrightarrow>
     madd A B ! i ! y = A ! i ! y + B ! i ! y"
  by (simp add: mat_shape_def madd_def)

lemma one_minus_shape: "mat_shape r c M \<Longrightarrow> mat_shape r c (map one_minus M)"
  by (auto simp: mat_shape_def one_minus_def)

lemma one_minus_nth:
  "mat_shape r c M \<Longrightarrow> i < r \<Longrightarrow> y < c \<Longrightarrow> map one_minus M ! i ! y = 1 - M ! i ! y"
  by (simp add: mat_shape_def one_minus_def)

lemma column_upt: "mat_shape r c M \<Longrightarrow> column y M = map (\<lambda>i. M ! i ! y) [0..<r]"
  by (auto simp: mat_shape_def column_def intro: nth_equalityI)

lemma sum0_length: "mat_shape r c M \<Longrightarrow> 0 < r \<Longrightarrow> length (sum0 M) = c"
  by (cases M) (auto simp: mat_shape_def sum0_def)

lemma sum0_nth:
  "mat_shape r c M \<Longrightarrow> 0 < r \<Longrightarrow> y < c \<Longrightarrow> sum0 M ! y = sum_list (column y M)"
  by (cases M) (auto simp: mat_shape_def sum0_def)

lemma prod0_length: "mat_shape r c M \<Longrightarrow> 0 < r \<Longrightarrow> length (prod0 M) = c"
  by (cases M) (auto simp: mat_shape_def prod0_def)

lemma prod0_nth:
  "mat_shape r c M \<Longrightarrow> 0 < r \<Longrightarrow> y < c \<Longrightarrow> prod0 M ! y = prod_list (column y M)"
  by (cases M) (auto simp: mat_shape_def prod0_def)

lemma exp_sum_list: "exp (sum_list (map f xs)) = prod_list (map (\<lambda>x. exp (f x :: real)) xs)"
  by (induction xs) (simp_all add: exp_add)

lemma sum_list_exp_pos:
  assumes "v \<noteq> []"
  shows "0 < sum_list (map exp (v :: real list))"
proof (cases v)
  case Nil
  with assms show ?thesis by simp
next
  case (Cons a w)
  have "0 \<le> sum_list (map exp w)" by (rule sum_list_nonneg) auto
  then have "0 < exp a + sum_list (map exp w)" by (intro add_pos_nonneg) simp_all
  then show ?thesis by (simp add: Cons)
qed

lemma normalize_scale:
  assumes "k \<noteq> 0"
  shows "normalize (map (\<lambda>p. p * k) post) = normalize post"
proof -
  have "sum_list (map (\<lambda>p. p * k) post) = sum_list post * k"
    by (simp add: sum_list_mult_const)
  then show ?thesis using assms by (simp add: normalize_def comp_def)
qed

lemma softmax_shift:
  "normalize (map exp (map (\<lambda>a. a - c) v)) = normalize (map exp v)"
proof -
  have "map exp (map (\<lambda>a. a - c) v) = map (\<lambda>p. p * exp (- c)) (map exp v)"
    by (simp add: exp_diff exp_minus divide_inverse)
  then show ?thesis by (simp only: normalize_scale [of "exp (- c)", simplified])
qed

lemma bayespost_softmax: "bayespost t data = normalize (map exp (logpost t data))"
  unfolding bayespost_def Let_def by (rule softmax_shift)

lemma logpost_length:
  assumes "tables_shape t" and "length data = 784"
  shows "length (logpost t data) = 10"
proof -
  from assms have "mat_shape 784 10 (madd (bmul (logpx t) data)
                      (bmul (logpxneg t) (one_minus data)))"
    by (intro madd_shape bmul_shape) (simp_all add: tables_shape_def one_minus_def)
  then have "length (sum0 (madd (bmul (logpx t) data)
                      (bmul (logpxneg t) (one_minus data)))) = 10"
    by (rule sum0_length) simp
  then show ?thesis using assms by (simp add: logpost_def tables_shape_def)
qed

lemma logpost_nth:
  assumes "tables_shape t" and "length data = 784" and "y < 10"
  shows "logpost t data ! y = logpy t ! y +
           sum_list (map (\<lambda>i. logpx t ! i ! y * data ! i +
                               logpxneg t ! i ! y * (1 - data ! i)) [0..<784])"
proof -
  let ?A = "bmul (logpx t) data" and ?B = "bmul (logpxneg t) (one_minus data)"
  from assms have sh: "mat_shape 784 10 (logpx t)" "mat_shape 784 10 (logpxneg t)"
    and len: "length (logpy t) = 10" "length (one_minus data) = 784"
    by (simp_all add: tables_shape_def one_minus_def)
  have A: "mat_shape 784 10 ?A" and B: "mat_shape 784 10 ?B"
    using sh len assms(2) by (simp_all add: bmul_shape)
  have M: "mat_shape 784 10 (madd ?A ?B)" using A B by (rule madd_shape)
  have "sum0 (madd ?A ?B) ! y = sum_list (map (\<lambda>i. madd ?A ?B ! i ! y) [0..<784])"
    using M assms(3) by (simp add: sum0_nth column_upt [OF M])
  also have "map (\<lambda>i. madd ?A ?B ! i ! y) [0..<784] =
             map (\<lambda>i. logpx t ! i ! y * data ! i +
                       logpxneg t ! i ! y * (1 - data ! i)) [0..<784]"
  proof (intro map_cong refl)
    fix i assume "i \<in> set [0..<784]"
    then have i: "i < 784" by simp
    have "one_minus data ! i = 1 - data ! i"
      using i assms(2) by (simp add: one_minus_def)
    then show "madd ?A ?B ! i ! y =
        logpx t ! i ! y * data ! i + logpxneg t ! i ! y * (1 - data ! i)"
      using madd_nth [OF A B i assms(3)] bmul_nth [OF sh(1) assms(2) i assms(3)]
        bmul_nth [OF sh(2) len(2) i assms(3)] by simp
  qed
  finally show ?thesis
    using sum0_length [OF M] len assms(3) by (simp add: logpost_def)
qed

section \<open>The posterior on sample tables\<close>

lemma bayespost_length:
  "tables_shape t \<Longrightarrow> length data = 784 \<Longrightarrow> length (bayespost t data) = 10"
  by (simp add: bayespost_softmax normalize_def logpost_length)


lemma sum0_replicate:
  "sum0 (replicate (Suc n) (replicate c a)) = replicate c (real (Suc n) * a)"
proof -
  have "sum0 (replicate (Suc n) (replicate c a)) =
          map (\<lambda>y. sum_list (replicate (Suc n) (replicate c a ! y))) [0..<c]"
    by (simp add: sum0_def column_def)
  also have "\<dots> = map (\<lambda>y. real (Suc n) * a) [0..<c]"
    by (intro map_cong refl) (simp add: sum_list_replicate del: replicate.simps)
  finally show ?thesis by (simp add: map_replicate_const)
qed


section \<open>The direct product and the log tables\<close>

lemma finite_vec_log:
  "\<forall>a \<in> set v. 0 < a \<Longrightarrow> finite_vec (map nd_log v) = Some (map ln v)"
  by (induction v) (simp_all add: nd_log_def)

lemma finite_mat_log:
  "\<forall>row \<in> set M. \<forall>a \<in> set row. 0 < a \<Longrightarrow>
     finite_mat (map (map nd_log) M) = Some (map (map ln) M)"
  by (induction M) (simp_all add: finite_vec_log)

lemma log_tables_finite:
  assumes "\<forall>row \<in> set (px nb). \<forall>p \<in> set row. 0 < p \<and> p < 1"
    and "\<forall>p \<in> set (py nb). 0 < p"
  shows "log_tables nb = Some \<lparr>logpx = map (map ln) (px nb),
           logpxneg = map (map ln) (map one_minus (px nb)), logpy = map ln (py nb)\<rparr>"
proof -
  have "\<forall>row \<in> set (px nb). \<forall>a \<in> set row. 0 < a" using assms(1) by blast
  then have a: "finite_mat (map (map nd_log) (px nb)) = Some (map (map ln) (px nb))"
    by (rule finite_mat_log)
  have "\<forall>row \<in> set (map one_minus (px nb)). \<forall>a \<in> set row. 0 < a"
    using assms(1) by (auto simp: one_minus_def)
  then have b: "finite_mat (map (map nd_log) (map one_minus (px nb))) =
                 Some (map (map ln) (map one_minus (px nb)))"
    by (rule finite_mat_log)
  have c: "finite_vec (map nd_log (py nb)) = Some (map ln (py nb))"
    using assms(2) by (rule finite_vec_log)
  show ?thesis unfolding log_tables_def a b c by simp
qed

lemma xprob_unnormalized_length:
  assumes "mat_shape 784 10 (px nb)" and "length (py nb) = 10" and "length data = 784"
  shows "length (xprob_unnormalized nb data) = 10"
proof -
  from assms have "mat_shape 784 10 (madd (bmul (px nb) data)
                      (bmul (map one_minus (px nb)) (one_minus data)))"
    by (intro madd_shape bmul_shape one_minus_shape) (simp_all add: one_minus_def)
  then have "length (prod0 (madd (bmul (px nb) data)
                      (bmul (map one_minus (px nb)) (one_minus data)))) = 10"
    by (rule prod0_length) simp
  then show ?thesis using assms by (simp add: xprob_unnormalized_def)
qed

lemma xprob_unnormalized_nth:
  assumes "mat_shape 784 10 (px nb)" and "length (py nb) = 10" and "length data = 784"
    and "y < 10"
  shows "xprob_unnormalized nb data ! y =
           prod_list (map (\<lambda>i. px nb ! i ! y * data ! i +
                               (1 - px nb ! i ! y) * (1 - data ! i)) [0..<784]) * py nb ! y"
proof -
  let ?N = "map one_minus (px nb)"
  let ?A = "bmul (px nb) data" and ?B = "bmul ?N (one_minus data)"
  have N: "mat_shape 784 10 ?N" using assms(1) by (rule one_minus_shape)
  have len: "length (one_minus data) = 784" using assms(3) by (simp add: one_minus_def)
  have A: "mat_shape 784 10 ?A" and B: "mat_shape 784 10 ?B"
    using assms(1,3) N len by (simp_all add: bmul_shape)
  have M: "mat_shape 784 10 (madd ?A ?B)" using A B by (rule madd_shape)
  have "prod0 (madd ?A ?B) ! y = prod_list (map (\<lambda>i. madd ?A ?B ! i ! y) [0..<784])"
    using M assms(4) by (simp add: prod0_nth column_upt [OF M])
  also have "map (\<lambda>i. madd ?A ?B ! i ! y) [0..<784] =
             map (\<lambda>i. px nb ! i ! y * data ! i +
                       (1 - px nb ! i ! y) * (1 - data ! i)) [0..<784]"
  proof (intro map_cong refl)
    fix i assume "i \<in> set [0..<784]"
    then have i: "i < 784" by simp
    have "one_minus data ! i = 1 - data ! i"
      using i assms(3) by (simp add: one_minus_def)
    then show "madd ?A ?B ! i ! y =
        px nb ! i ! y * data ! i + (1 - px nb ! i ! y) * (1 - data ! i)"
      using madd_nth [OF A B i assms(4)] bmul_nth [OF assms(1,3) i assms(4)]
        bmul_nth [OF N len i assms(4)] one_minus_nth [OF assms(1) i assms(4)] by simp
  qed
  finally show ?thesis
    using prod0_length [OF M] assms(2,4) by (simp add: xprob_unnormalized_def)
qed

lemma exp_logpost:
  assumes shape: "mat_shape 784 10 (px nb)" "length (py nb) = 10"
    and px: "\<forall>row \<in> set (px nb). \<forall>p \<in> set row. 0 < p \<and> p < 1"
    and py: "\<forall>p \<in> set (py nb). 0 < p"
    and x: "length x = 784" "\<forall>v \<in> set x. v = 0 \<or> v = 1"
    and t: "t = \<lparr>logpx = map (map ln) (px nb),
           logpxneg = map (map ln) (map one_minus (px nb)), logpy = map ln (py nb)\<rparr>"
  shows "tables_shape t" and "map exp (logpost t x) = xprob_unnormalized nb x"
proof -
  show ts: "tables_shape t"
    using shape by (auto simp: t tables_shape_def mat_shape_def one_minus_def)
  have entry: "0 < px nb ! i ! y \<and> px nb ! i ! y < 1" if "i < 784" "y < 10" for i y
  proof -
    from that shape(1) have "px nb ! i \<in> set (px nb)" "px nb ! i ! y \<in> set (px nb ! i)"
      by (simp_all add: mat_shape_def)
    with px show ?thesis by blast
  qed
  show "map exp (logpost t x) = xprob_unnormalized nb x"
  proof (rule nth_equalityI)
    show "length (map exp (logpost t x)) = length (xprob_unnormalized nb x)"
      using logpost_length [OF ts x(1)] xprob_unnormalized_length [OF shape x(1)] by simp
  next
    fix y assume "y < length (map exp (logpost t x))"
    then have y: "y < 10" using logpost_length [OF ts x(1)] by simp
    have pyy: "0 < py nb ! y" using py shape(2) y by simp
    have factor: "exp (logpx t ! i ! y * x ! i + logpxneg t ! i ! y * (1 - x ! i)) =
                  px nb ! i ! y * x ! i + (1 - px nb ! i ! y) * (1 - x ! i)"
      if "i \<in> set [0..<784]" for i
    proof -
      from that have i: "i < 784" by simp
      have row: "length (px nb ! i) = 10" "length (px nb) = 784"
        using shape(1) i by (simp_all add: mat_shape_def)
      have l1: "logpx t ! i ! y = ln (px nb ! i ! y)"
        using i y row by (simp add: t)
      have l2: "logpxneg t ! i ! y = ln (1 - px nb ! i ! y)"
        using i y row by (simp add: t one_minus_def)
      have "x ! i = 0 \<or> x ! i = 1" using x i by simp
      then show ?thesis using entry [OF i y] by (auto simp: l1 l2)
    qed
    have "exp (logpost t x ! y) =
            exp (logpy t ! y) * exp (sum_list (map (\<lambda>i. logpx t ! i ! y * x ! i +
                               logpxneg t ! i ! y * (1 - x ! i)) [0..<784]))"
      by (simp add: logpost_nth [OF ts x(1) y] exp_add)
    also have "exp (logpy t ! y) = py nb ! y"
      using pyy shape(2) y by (simp add: t)
    also have "exp (sum_list (map (\<lambda>i. logpx t ! i ! y * x ! i +
                               logpxneg t ! i ! y * (1 - x ! i)) [0..<784])) =
               prod_list (map (\<lambda>i. px nb ! i ! y * x ! i +
                               (1 - px nb ! i ! y) * (1 - x ! i)) [0..<784])"
      unfolding exp_sum_list by (rule arg_cong [where f = prod_list], rule map_cong [OF refl factor])
    finally show "map exp (logpost t x) ! y = xprob_unnormalized nb x ! y"
      using y logpost_length [OF ts x(1)]
      by (simp add: xprob_unnormalized_nth [OF shape x(1) y] mult.commute)
  qed
qed

lemma bayespost_direct:
  assumes "mat_shape 784 10 (px nb)" "length (py nb) = 10"
    and "\<forall>row \<in> set (px nb). \<forall>p \<in> set row. 0 < p \<and> p < 1"
    and "\<forall>p \<in> set (py nb). 0 < p"
    and "length x = 784" "\<forall>v \<in> set x. v = 0 \<or> v = 1"
  shows "\<exists>t. log_tables nb = Some t \<and> tables_shape t \<and> bayespost t x = xprob nb x"
proof -
  let ?t = "\<lparr>logpx = map (map ln) (px nb),
           logpxneg = map (map ln) (map one_minus (px nb)), logpy = map ln (py nb)\<rparr>"
  have "log_tables nb = Some ?t" using assms(3,4) by (rule log_tables_finite)
  moreover have "tables_shape ?t" using assms by (intro exp_logpost(1)) simp_all
  moreover have "bayespost ?t x = xprob nb x"
    using exp_logpost(2) [OF assms refl] by (simp add: bayespost_softmax xprob_def)
  ultimately show ?thesis by blast
qed

section \<open>The error-rate loop\<close>

lemma score_sample_ok:
  assumes "tables_shape t" and "sample_ok smp"
  shows "score_sample t s smp =
           Inr \<lparr>ctr = ctr s + 1, err = err s + (if misclassified t smp then 1 else 0)\<rparr>"
proof -
  obtain data y where smp: "smp = (data, y)" by (cases smp)
  from assms(2) have d: "length data = 784" and y: "y < 10"
    by (simp_all add: sample_ok_def smp)
  have "length (bayespost t data) = 10" using assms(1) d by (rule bayespost_length)
  then show ?thesis
    using d y by (simp add: score_sample_def smp misclassified_def np_max_def Let_def)
qed

lemma score_loop_ok:
  assumes "tables_shape t" and "\<forall>smp \<in> set test. sample_ok smp"
  shows "score_loop t s test =
           Inr \<lparr>ctr = ctr s + length test,
                err = err s + length (filter (misclassified t) test)\<rparr>"
  using assms(2)
proof (induction test arbitrary: s)
  case Nil
  then show ?case by simp
next
  case (Cons smp rest)
  then have ok: "sample_ok smp" and rest: "\<forall>smp \<in> set rest. sample_ok smp" by simp_all
  show ?case
    by (simp add: score_sample_ok [OF assms(1) ok] Cons.IH [OF rest])
qed

text \<open>
  Claim C3. The error rate is computed correctly on the test set: the cell prints
  \<open>err/ctr\<close>, and this value is the number of test samples whose own label's posterior is
  strictly below the largest entry of \<open>bayespost(x)\<close>, divided by the number of test
  samples. A sample whose label ties the maximum is counted as correct. The test set is a
  non-empty list of 784-pixel samples with labels below 10, as the held-out split is.
\<close>

theorem error_rate_counts:
  assumes "tables_shape t" and "\<forall>smp \<in> set test. sample_ok smp" and "test \<noteq> []"
  shows "error_rate t test =
           Inr (real (length (filter (misclassified t) test)) / real (length test))"
  using assms(3) by (simp add: error_rate_def score_loop_ok [OF assms(1,2)])

text \<open>
  With the skewed tables the posterior is the prior on every image of one grey level, so a
  sample labelled 0 ties the maximum and counts as correct, and a sample labelled 7 counts
  as an error.
\<close>

lemma skewed_tables_shape: "tables_shape skewed_tables"
  by (simp add: tables_shape_def mat_shape_def skewed_tables_def)

lemma exp_shifted_logs:
  fixes K :: real
  assumes "\<forall>p \<in> set ps. 0 < p"
  shows "map exp (map (\<lambda>p. ln p + K) ps) = map (\<lambda>p. p * exp K) ps"
  using assms by (induction ps) (simp_all add: exp_add)

lemma skewed_tables_posterior:
  "bayespost skewed_tables (replicate 784 d) = 1/2 # replicate 9 (1/18)"
proof -
  let ?K = "784 * ln (1/2) :: real"
  let ?prior = "1/2 # replicate 9 (1/18) :: vec"
  have m: "madd (bmul (replicate 784 (replicate 10 (ln (1/2)))) (replicate 784 d))
             (bmul (replicate 784 (replicate 10 (ln (1/2)))) (one_minus (replicate 784 d))) =
           replicate (Suc 783) (replicate 10 (ln (1/2)))"
    by (simp add: bmul_def madd_def one_minus_def algebra_simps del: replicate.simps)
  have "logpost skewed_tables (replicate 784 d) = map (\<lambda>p. ln p + ?K) ?prior"
    unfolding logpost_def skewed_tables_def tables.simps m sum0_replicate
    by (simp add: numeral_eq_Suc)
  moreover have "map exp (map (\<lambda>p. ln p + ?K) ?prior) = map (\<lambda>p. p * exp ?K) ?prior"
    by (rule exp_shifted_logs) simp
  ultimately have "map exp (logpost skewed_tables (replicate 784 d)) =
          map (\<lambda>p. p * exp ?K) ?prior"
    by (simp only:)
  then have "bayespost skewed_tables (replicate 784 d) = normalize ?prior"
    by (simp only: bayespost_softmax normalize_scale [of "exp ?K", simplified])
  also have "\<dots> = ?prior"
    by (simp add: normalize_def sum_list_replicate)
  finally show ?thesis .
qed

theorem error_rate_counts_witness:
  "error_rate skewed_tables [(replicate 784 1, 0), (replicate 784 0, 7)] = Inr (1 / 2)"
proof -
  let ?test = "[(replicate 784 1, 0), (replicate 784 0, 7)] :: sample list"
  have ok: "\<forall>smp \<in> set ?test. sample_ok smp" by (simp add: sample_ok_def)
  have ne: "?test \<noteq> []" by simp
  have mx: "Max (set (1/2 # replicate 9 (1/18 :: real))) = 1/2" by simp
  have miss: "filter (misclassified skewed_tables) ?test = [(replicate 784 0, 7)]"
    by (simp add: misclassified_def skewed_tables_posterior mx del: set_simps)
  show ?thesis
    unfolding error_rate_counts [OF skewed_tables_shape ok ne] miss by simp
qed

section \<open>What the fitted model looks like\<close>

lemma count_sample_Inr:
  "count_sample s smp = Inr s' \<Longrightarrow> length (ycount s) = 10 \<Longrightarrow> sample_ok smp"
  by (cases smp) (auto simp: count_sample_def sample_ok_def split: if_splits)

lemma count_loop_Inr:
  "count_loop s train = Inr s' \<Longrightarrow> counters_shape s \<Longrightarrow> \<forall>smp \<in> set train. sample_ok smp"
proof (induction train arbitrary: s)
  case Nil
  then show ?case by simp
next
  case (Cons smp rest)
  from Cons.prems(1) obtain s1 where s1: "count_sample s smp = Inr s1"
    and loop: "count_loop s1 rest = Inr s'"
    by (auto split: sum.splits)
  from s1 Cons.prems(2) have ok: "sample_ok smp"
    by (auto intro: count_sample_Inr simp: counters_shape_def)
  from count_sample_ok [OF Cons.prems(2) ok] s1 have "counters_shape s1" by auto
  with Cons.IH [OF loop] ok show ?case by simp
qed

lemma fit_Inr:
  assumes "fit train = Inr nb"
  shows "\<forall>smp \<in> set train. sample_ok smp"
proof -
  let ?s0 = "\<lparr>xcount = nd_ones2 784 10, ycount = nd_ones 10\<rparr>"
  have s0: "counters_shape ?s0"
    by (simp add: counters_shape_def mat_shape_def nd_ones_def nd_ones2_def)
  from assms obtain s where "count_loop ?s0 train = Inr s"
    by (auto simp: fit_def split: sum.splits)
  then show ?thesis using s0 by (rule count_loop_Inr)
qed

lemma fit_entries:
  assumes "fit train = Inr nb"
  shows "mat_shape 784 10 (px nb)" and "length (py nb) = 10"
    and "\<And>y. y < 10 \<Longrightarrow> py nb ! y = (1 + class_size y train) / (10 + real (length train))"
    and "\<And>i y. i < 784 \<Longrightarrow> y < 10 \<Longrightarrow>
           px nb ! i ! y = (1 + pixel_sum i y train) / (1 + class_size y train)"
proof -
  have ok: "\<forall>smp \<in> set train. sample_ok smp" using assms by (rule fit_Inr)
  from fit_ok [OF ok] assms have sh: "counters_shape nb"
    and yc: "\<And>y. y < 10 \<Longrightarrow> ycount nb ! y = 1 + class_size y train"
    and xc: "\<And>i y. i < 784 \<Longrightarrow> y < 10 \<Longrightarrow> xcount nb ! i ! y = 1 + pixel_sum i y train"
    and py: "py nb = map (\<lambda>c. c / sum_list (ycount nb)) (ycount nb)"
    and px: "px nb = map (\<lambda>row. map2 (/) row (ycount nb)) (xcount nb)"
    by auto
  from sh have len: "length (ycount nb) = 10" "length (xcount nb) = 784"
    and rows: "\<And>row. row \<in> set (xcount nb) \<Longrightarrow> length row = 10"
    by (simp_all add: counters_shape_def mat_shape_def)
  have tot: "sum_list (ycount nb) = 10 + real (length train)"
    by (rule ycount_total [OF ok assms])
  show "mat_shape 784 10 (px nb)"
    using len rows by (auto simp: px mat_shape_def)
  show "length (py nb) = 10" using len by (simp add: py)
  show "py nb ! y = (1 + class_size y train) / (10 + real (length train))" if "y < 10" for y
    using that len yc tot by (simp add: py)
  show "px nb ! i ! y = (1 + pixel_sum i y train) / (1 + class_size y train)"
    if "i < 784" "y < 10" for i y
  proof -
    have "length (xcount nb ! i) = 10" using rows len that by simp
    then show ?thesis using that len yc xc by (simp add: px)
  qed
qed

lemma class_size_nonneg: "0 \<le> class_size y train"
  by (simp add: class_size_def)

lemma pixel_sum_bounds:
  assumes "\<forall>smp \<in> set train. sample_ok smp \<and> (\<forall>v \<in> set (fst smp). 0 \<le> v \<and> v \<le> 1)"
    and "i < 784"
  shows "0 \<le> pixel_sum i y train" and "pixel_sum i y train \<le> class_size y train"
proof -
  have v: "0 \<le> fst smp ! i \<and> fst smp ! i \<le> 1" if "smp \<in> set (of_class y train)" for smp
  proof -
    from that have "smp \<in> set train" by (simp add: of_class_def)
    with assms have "length (fst smp) = 784" "\<forall>v \<in> set (fst smp). 0 \<le> v \<and> v \<le> 1"
      by (auto simp: sample_ok_def)
    with assms(2) show ?thesis by simp
  qed
  show "0 \<le> pixel_sum i y train"
    unfolding pixel_sum_def by (rule sum_list_nonneg) (auto dest: v)
  have "sum_list (map (\<lambda>smp. fst smp ! i) (of_class y train)) \<le>
        sum_list (map (\<lambda>smp. 1) (of_class y train))"
    by (rule sum_list_mono) (auto dest: v)
  then show "pixel_sum i y train \<le> class_size y train"
    by (simp add: pixel_sum_def class_size_def sum_list_replicate map_replicate_const)
qed

lemma pixel_sum_all_on:
  assumes "\<forall>smp \<in> set (of_class y train). fst smp ! i = 1"
  shows "pixel_sum i y train = class_size y train"
proof -
  have "map (\<lambda>smp. fst smp ! i) (of_class y train) = map (\<lambda>smp. 1) (of_class y train)"
    using assms by (intro map_cong refl) simp
  then show ?thesis
    by (simp add: pixel_sum_def class_size_def sum_list_replicate map_replicate_const)
qed

lemma mat_entry:
  "mat_shape r c M \<Longrightarrow> row \<in> set M \<Longrightarrow> p \<in> set row \<Longrightarrow> \<exists>i<r. \<exists>y<c. p = M ! i ! y"
  by (metis in_set_conv_nth mat_shape_def)

text \<open>
  Claim C5. Add-one smoothing keeps the positive-side logarithm defined. For every training
  set whose transformed pixel values lie between 0 and 1, every entry of \<open>px\<close> is strictly
  positive and at most 1, so \<open>nd.log(px)\<close> is finite everywhere. The upper bound is reached:
  when every sample of a class has a pixel at 1, that entry of \<open>px\<close> is 1 and
  \<open>nd.log(1-px)\<close> is minus infinity there.
\<close>

theorem px_bounds:
  assumes "\<forall>smp \<in> set train. sample_ok smp \<and> (\<forall>v \<in> set (fst smp). 0 \<le> v \<and> v \<le> 1)"
  shows "\<exists>nb. fit train = Inr nb \<and>
           (\<forall>i<784. \<forall>y<10.
              0 < px nb ! i ! y \<and> px nb ! i ! y \<le> 1 \<and>
              nd_log (px nb ! i ! y) = Finite (ln (px nb ! i ! y)) \<and>
              ((\<forall>smp \<in> set (of_class y train). fst smp ! i = 1) \<longrightarrow>
                 px nb ! i ! y = 1 \<and> nd_log (1 - px nb ! i ! y) = MinusInfinity))"
proof -
  from assms have ok: "\<forall>smp \<in> set train. sample_ok smp" by blast
  from fit_ok [OF ok] obtain nb where run: "fit train = Inr nb" by blast
  have "0 < px nb ! i ! y \<and> px nb ! i ! y \<le> 1 \<and>
        nd_log (px nb ! i ! y) = Finite (ln (px nb ! i ! y)) \<and>
        ((\<forall>smp \<in> set (of_class y train). fst smp ! i = 1) \<longrightarrow>
           px nb ! i ! y = 1 \<and> nd_log (1 - px nb ! i ! y) = MinusInfinity)"
    if i: "i < 784" and y: "y < 10" for i y
  proof -
    have eq: "px nb ! i ! y = (1 + pixel_sum i y train) / (1 + class_size y train)"
      using run i y by (rule fit_entries(4))
    have c: "0 \<le> class_size y train" by (rule class_size_nonneg)
    have lo: "0 \<le> pixel_sum i y train" and hi: "pixel_sum i y train \<le> class_size y train"
      using assms i by (rule pixel_sum_bounds)+
    have pos: "0 < px nb ! i ! y" using c lo by (simp add: eq add_pos_nonneg)
    have le: "px nb ! i ! y \<le> 1" using c hi by (simp add: eq)
    have one: "px nb ! i ! y = 1" if "\<forall>smp \<in> set (of_class y train). fst smp ! i = 1"
      using pixel_sum_all_on [OF that] c by (simp add: eq)
    show ?thesis using pos le one by (auto simp: nd_log_def)
  qed
  with run show ?thesis by blast
qed


text \<open>The all-white 0: pixel 5 is on in every sample of class 0.\<close>

theorem px_bounds_witness:
  "\<exists>nb. fit (MNIST white_zero) = Inr nb \<and> 0 < px nb ! 5 ! 0 \<and> px nb ! 5 ! 0 = 1 \<and>
     nd_log (px nb ! 5 ! 0) = Finite (ln (px nb ! 5 ! 0)) \<and>
     nd_log (1 - px nb ! 5 ! 0) = MinusInfinity"
proof -
  have ok: "\<forall>smp \<in> set (MNIST white_zero).
              sample_ok smp \<and> (\<forall>v \<in> set (fst smp). 0 \<le> v \<and> v \<le> 1)"
    by (simp add: MNIST_def white_zero_def transform_def sample_ok_def)
  have on: "\<forall>smp \<in> set (of_class 0 (MNIST white_zero)). fst smp ! 5 = 1"
    by (simp add: of_class_def MNIST_def white_zero_def transform_def)
  from px_bounds [OF ok] obtain nb where run: "fit (MNIST white_zero) = Inr nb"
    and all: "\<And>i y. i < 784 \<Longrightarrow> y < 10 \<Longrightarrow>
        0 < px nb ! i ! y \<and> px nb ! i ! y \<le> 1 \<and>
        nd_log (px nb ! i ! y) = Finite (ln (px nb ! i ! y)) \<and>
        ((\<forall>smp \<in> set (of_class y (MNIST white_zero)). fst smp ! i = 1) \<longrightarrow>
           px nb ! i ! y = 1 \<and> nd_log (1 - px nb ! i ! y) = MinusInfinity)"
    by blast
  have "5 < (784::nat)" "0 < (10::nat)" by simp_all
  from all [OF this] on run show ?thesis by (intro exI [of _ nb]) blast
qed

section \<open>Log space against the direct product\<close>

lemma xprob_direct:
  assumes "mat_shape 784 10 (px nb)" and "length (py nb) = 10" and "length x = 784"
  shows "xprob nb x = direct_posterior nb x"
proof -
  have "xprob_unnormalized nb x = map (direct_product nb x) [0..<10]"
  proof (rule nth_equalityI)
    show "length (xprob_unnormalized nb x) = length (map (direct_product nb x) [0..<10])"
      using xprob_unnormalized_length [OF assms] by simp
  next
    fix y assume "y < length (xprob_unnormalized nb x)"
    then have y: "y < 10" using xprob_unnormalized_length [OF assms] by simp
    then show "xprob_unnormalized nb x ! y = map (direct_product nb x) [0..<10] ! y"
      by (simp add: xprob_unnormalized_nth [OF assms y] direct_product_def)
  qed
  then show ?thesis
    by (simp add: xprob_def direct_posterior_def normalize_def comp_def)
qed

lemma fit_py_pos:
  assumes "fit train = Inr nb" and "p \<in> set (py nb)"
  shows "0 < p"
proof -
  from assms(2) fit_entries(2) [OF assms(1)] obtain y where y: "y < 10" and p: "p = py nb ! y"
    by (auto simp: in_set_conv_nth)
  have "0 \<le> class_size y train" by (rule class_size_nonneg)
  then show ?thesis
    unfolding p fit_entries(3) [OF assms(1) y] by (intro divide_pos_pos add_pos_nonneg) simp_all
qed

text \<open>
  Claim C2. In exact arithmetic the log-space computation equals the direct product. For
  the model fitted to any training set, if every entry of \<open>px\<close> is strictly between 0 and
  1, then the three log tables are finite, and for every column \<open>x\<close> of 784 entries in
  \<open>{0, 1}\<close> the result of \<open>bayespost(x)\<close> is the normalized direct product of the third
  cell, which is the vector the product formula describes.
\<close>

theorem bayespost_is_direct_product:
  assumes "fit train = Inr nb"
    and "\<forall>row \<in> set (px nb). \<forall>p \<in> set row. 0 < p \<and> p < 1"
    and "length x = 784" and "\<forall>v \<in> set x. v = 0 \<or> v = 1"
  shows "\<exists>t. log_tables nb = Some t \<and> bayespost t x = xprob nb x \<and>
               xprob nb x = direct_posterior nb x"
proof -
  have sh: "mat_shape 784 10 (px nb)" "length (py nb) = 10"
    using assms(1) by (rule fit_entries)+
  have py: "\<forall>p \<in> set (py nb). 0 < p"
    using fit_py_pos [OF assms(1)] by blast
  from bayespost_direct [OF sh assms(2) py assms(3,4)]
  obtain t where "log_tables nb = Some t" "bayespost t x = xprob nb x" by blast
  moreover have "xprob nb x = direct_posterior nb x"
    using sh assms(3) by (rule xprob_direct)
  ultimately show ?thesis by blast
qed

lemma filter_eq_upt: "y < n \<Longrightarrow> filter (\<lambda>l. l = y) [0..<n] = [y]"
  by (induction n) (auto simp: less_Suc_eq)

lemma blank_digits_class:
  "y < 10 \<Longrightarrow> of_class y (MNIST blank_digits) = [(replicate 784 0, y)]"
  by (simp add: of_class_def MNIST_def blank_digits_def transform_def filter_map comp_def
      filter_eq_upt)

lemma blank_digits_ok: "smp \<in> set (MNIST blank_digits) \<Longrightarrow> sample_ok smp"
  by (auto simp: MNIST_def blank_digits_def transform_def sample_ok_def)

text \<open>
  One all-black image per digit gives \<open>px = 1/2\<close> everywhere; the input is the all-white
  image.
\<close>

theorem bayespost_is_direct_product_witness:
  "\<exists>nb t. fit (MNIST blank_digits) = Inr nb \<and> log_tables nb = Some t \<and>
     bayespost t (replicate 784 1) = xprob nb (replicate 784 1) \<and>
     xprob nb (replicate 784 1) = direct_posterior nb (replicate 784 1)"
proof -
  have ok: "\<forall>smp \<in> set (MNIST blank_digits). sample_ok smp"
    using blank_digits_ok by blast
  from fit_ok [OF ok] obtain nb where run: "fit (MNIST blank_digits) = Inr nb" by blast
  have half: "px nb ! i ! y = 1 / 2" if "i < 784" "y < 10" for i y
    using that
    by (simp add: fit_entries(4) [OF run that] pixel_sum_def class_size_def
        blank_digits_class)
  have inside: "\<forall>row \<in> set (px nb). \<forall>p \<in> set row. 0 < p \<and> p < 1"
  proof (intro ballI)
    fix row p assume "row \<in> set (px nb)" "p \<in> set row"
    with mat_entry [OF fit_entries(1) [OF run]] obtain i y
      where "i < 784" "y < 10" "p = px nb ! i ! y" by blast
    then show "0 < p \<and> p < 1" by (simp add: half)
  qed
  have x: "length (replicate 784 (1::real)) = 784"
    "\<forall>v \<in> set (replicate 784 (1::real)). v = 0 \<or> v = 1" by simp_all
  from bayespost_is_direct_product [OF run inside x] run show ?thesis by blast
qed

section \<open>The maximum shift\<close>







text \<open>
  The tables fitted to one all-black image per digit are the half tables.
\<close>

lemma replicate_mat:
  assumes "mat_shape r c M" and "\<And>i y. i < r \<Longrightarrow> y < c \<Longrightarrow> M ! i ! y = a"
  shows "M = replicate r (replicate c a)"
proof (rule nth_equalityI)
  show "length M = length (replicate r (replicate c a))"
    using assms(1) by (simp add: mat_shape_def)
next
  fix i assume "i < length M"
  then have i: "i < r" and len: "length (M ! i) = c"
    using assms(1) by (simp_all add: mat_shape_def)
  have "M ! i = replicate c a"
    using len assms(2) [OF i] by (intro nth_equalityI) simp_all
  then show "M ! i = replicate r (replicate c a) ! i" using i by simp
qed

lemma blank_digits_tables:
  "\<exists>nb. fit (MNIST blank_digits) = Inr nb \<and> log_tables nb = Some half_tables"
proof -
  have ok: "\<forall>smp \<in> set (MNIST blank_digits). sample_ok smp"
    using blank_digits_ok by blast
  from fit_ok [OF ok] obtain nb where run: "fit (MNIST blank_digits) = Inr nb" by blast
  note e = fit_entries [OF run]
  have "px nb ! i ! y = 1 / 2" if "i < 784" "y < 10" for i y
    using that by (simp add: e(4) [OF that] pixel_sum_def class_size_def blank_digits_class)
  with e(1) have px: "px nb = replicate 784 (replicate 10 (1/2))" by (rule replicate_mat)
  have n: "length (MNIST blank_digits) = 10" by (simp add: MNIST_def blank_digits_def)
  have "py nb ! y = 1 / 10" if "y < 10" for y
    using that by (simp add: e(3) [OF that] class_size_def blank_digits_class n)
  with e(2) have py: "py nb = replicate 10 (1/10)"
    by (intro nth_equalityI) simp_all
  have "log_tables nb = Some \<lparr>logpx = map (map ln) (px nb),
           logpxneg = map (map ln) (map one_minus (px nb)), logpy = map ln (py nb)\<rparr>"
    by (rule log_tables_finite) (simp_all add: px py)
  also have "\<dots> = Some half_tables"
    by (simp add: px py half_tables_def one_minus_def del: ln_divide_pos)
  finally show ?thesis using run by blast
qed





section \<open>Tied parameters\<close>

declare decimal.simps [simp del]


lemma Dense_new:
  "Dense n None s =
     (let pre = ''dense'' @ decimal (name_counter s) @ ''_''; a = next_addr s in
      (\<lparr>units = n,
        params = \<lparr>prefix = pre, own = [(pre @ ''weight'', a), (pre @ ''bias'', a + 1)], shared = []\<rparr>,
        weight = a, bias = a + 1\<rparr>,
       s\<lparr>name_counter := name_counter s + 1,
         parameters := (parameters s)(a \<mapsto> \<lparr>pname = pre @ ''weight'', pdata = None\<rparr>,
                                      a + 1 \<mapsto> \<lparr>pname = pre @ ''bias'', pdata = None\<rparr>),
         next_addr := a + 2\<rparr>))"
  by (simp add: Dense_def Let_def dict_get_def)


lemma Dense_tied:
  assumes "own g = [(prefix g @ ''weight'', w), (prefix g @ ''bias'', b)]"
  shows "Dense n (Some g) s =
     (\<lparr>units = n,
       params = \<lparr>prefix = prefix g, own = own g, shared = own g\<rparr>,
       weight = w, bias = b\<rparr>,
      s\<lparr>name_counter := name_counter s + 1\<rparr>)"
  by (simp add: Dense_def Let_def dict_get_def assms)

lemma build_net_facts:
  assumes "build_net s0 = (net, s)"
  shows "length net = 4" and "weight (net ! 1) = next_addr s0" and "weight (net ! 2) = next_addr s0"
    and "weight (net ! 0) = next_addr s0 + 2"
    and "pending s (next_addr s0)"
  using assms
  by (auto simp: build_net_def Dense_new Dense_tied Let_def pending_def)

lemma init_parameter_pending:
  "pending s p \<Longrightarrow> P (init (pname (the (parameters s p)))) \<Longrightarrow>
     has_data P (init_parameter init p s) p"
  by (auto simp: pending_def has_data_def init_parameter_def data_of_def Let_def)

lemma init_parameter_has_data:
  "has_data P s p \<Longrightarrow> (\<And>name. P (init name)) \<Longrightarrow> has_data P (init_parameter init q s) p"
  by (auto simp: has_data_def init_parameter_def data_of_def Let_def
      split: option.splits)

lemma init_parameter_other:
  "pending s p \<Longrightarrow> q \<noteq> p \<Longrightarrow> pending (init_parameter init q s) p"
  by (auto simp: pending_def init_parameter_def Let_def split: option.splits)

lemma init_parameter_either:
  assumes "pending s p \<or> has_data P s p" and "\<And>name. P (init name)"
  shows "pending (init_parameter init q s) p \<or> has_data P (init_parameter init q s) p"
  using assms
  by (cases "q = p") (auto intro: init_parameter_pending init_parameter_has_data
      init_parameter_other)

lemma initialize_has_data:
  "has_data P s p \<Longrightarrow> (\<And>name. P (init name)) \<Longrightarrow> has_data P (initialize init net s) p"
  unfolding initialize_def
  by (induction net arbitrary: s) (simp_all add: init_parameter_has_data)

lemma initialize_weight:
  assumes "l \<in> set net" and "pending s (weight l) \<or> has_data P s (weight l)"
    and P: "\<And>name. P (init name)"
  shows "has_data P (initialize init net s) (weight l)"
  using assms(1,2)
proof (induction net arbitrary: s)
  case Nil
  then show ?case by simp
next
  case (Cons l' rest)
  let ?s1 = "init_parameter init (weight l') s"
  let ?s2 = "init_parameter init (bias l') ?s1"
  have step: "initialize init (l' # rest) s = initialize init rest ?s2"
    by (simp add: initialize_def)
  show ?case
  proof (cases "weight l' = weight l")
    case True
    from Cons.prems(2) have "has_data P ?s1 (weight l)"
      unfolding True using P by (auto intro: init_parameter_pending init_parameter_has_data)
    then have "has_data P ?s2 (weight l)" using P by (rule init_parameter_has_data)
    then show ?thesis unfolding step using P by (rule initialize_has_data)
  next
    case False
    with Cons.prems(1) have mem: "l \<in> set rest" by auto
    from Cons.prems(2) P have "pending ?s1 (weight l) \<or> has_data P ?s1 (weight l)"
      by (rule init_parameter_either)
    then have "pending ?s2 (weight l) \<or> has_data P ?s2 (weight l)"
      using P by (rule init_parameter_either)
    with Cons.IH [OF mem] show ?thesis unfolding step by blast
  qed
qed

lemma shared_net_data:
  assumes "shared_net init s0 = (net, s)" and P: "\<And>name. P (init name)"
  shows "length net = 4" and "weight (net ! Suc 0) = next_addr s0"
    and "weight (net ! 2) = next_addr s0"
    and "\<exists>a m. data_of s (next_addr s0) = Inr a \<and> ndarrays s a = Some m \<and> P m"
proof -
  obtain s4 where b: "build_net s0 = (net, s4)" and s: "s = initialize init net s4"
    using assms(1) by (auto simp: shared_net_def Let_def split: prod.splits)
  note f = build_net_facts [OF b]
  show "length net = 4" "weight (net ! Suc 0) = next_addr s0" "weight (net ! 2) = next_addr s0"
    using f by simp_all
  have mem: "net ! 1 \<in> set net" using f(1) by simp
  have "has_data P s (weight (net ! 1))"
    unfolding s using mem f(2,5) P by (intro initialize_weight) simp_all
  then have "has_data P s (next_addr s0)" by (simp only: f(2))
  then show "\<exists>a m. data_of s (next_addr s0) = Inr a \<and> ndarrays s a = Some m \<and> P m"
    by (simp add: has_data_def)
qed

text \<open>
  Claim C7. Tied parameters stay equal under mutation. In the network of the last cell
  \<open>net[1].weight\<close> and \<open>net[2].weight\<close> are the same parameter object, so after
  initialization \<open>net[1].weight.data()\<close> and \<open>net[2].weight.data()\<close> are the same array, and
  after an assignment \<open>net[h].weight.data()[i, j] = v\<close> through either handle, at any index
  of the array, both handles show the array with \<open>v\<close> written at that index.
\<close>

theorem tied_weights:
  assumes "shared_net init s0 = (net, s)"
  shows "weight (net ! 1) = weight (net ! 2) \<and>
         (\<exists>m. weight_data s net 1 = Inr m \<and> weight_data s net 2 = Inr m \<and>
            (\<forall>h \<in> {1, 2}. \<forall>i j v. i < length m \<longrightarrow> j < length (m ! i) \<longrightarrow>
               (\<exists>s'. set_weight net h i j v s = Inr s' \<and>
                  weight_data s' net 1 = Inr (m[i := (m ! i)[j := v]]) \<and>
                  weight_data s' net 2 = Inr (m[i := (m ! i)[j := v]]))))"
proof -
  note f = shared_net_data [OF assms, of "\<lambda>m. True", simplified]
  note f1 = f(2)
  from f(4) obtain a m where a: "data_of s (next_addr s0) = Inr a" and m: "ndarrays s a = Some m"
    by blast
  have w: "weight_data s net 1 = Inr m" "weight_data s net 2 = Inr m"
    using f(1) a m by (simp_all add: weight_data_def f1 f(3))
  have upd: "\<exists>s'. set_weight net h i j v s = Inr s' \<and>
                  weight_data s' net 1 = Inr (m[i := (m ! i)[j := v]]) \<and>
                  weight_data s' net 2 = Inr (m[i := (m ! i)[j := v]])"
    if "h \<in> {1, 2}" "i < length m" "j < length (m ! i)" for h i j v
  proof -
    let ?s' = "s\<lparr>ndarrays := (ndarrays s)(a \<mapsto> m[i := (m ! i)[j := v]])\<rparr>"
    from that(1) have h: "weight (net ! h) = next_addr s0" "h < length net"
      using f(1,2,3) by auto
    have "set_weight net h i j v s = Inr ?s'"
      using h a m that(2,3) by (simp add: set_weight_def setitem_def)
    moreover have "data_of ?s' (next_addr s0) = Inr a"
      using a by (simp add: data_of_def)
    then have "weight_data ?s' net 1 = Inr (m[i := (m ! i)[j := v]])"
      "weight_data ?s' net 2 = Inr (m[i := (m ! i)[j := v]])"
      using f(1) by (simp_all add: weight_data_def f1 f(3))
    ultimately show ?thesis by blast
  qed
  from f(2,3) w upd show ?thesis by auto
qed

text \<open>The cell's own assignment, \<open>net[1].weight.data()[0,0] = 100\<close>, on a fresh store.\<close>

theorem tied_weights_witness:
  "\<exists>net s s'. shared_net halves fresh_kernel = (net, s) \<and>
     weight_data s net 1 = Inr (replicate 8 (replicate 8 (1/2))) \<and>
     weight_data s net 2 = Inr (replicate 8 (replicate 8 (1/2))) \<and>
     set_weight net 1 0 0 100 s = Inr s' \<and>
     weight_data s' net 1 = Inr ((100 # replicate 7 (1/2)) # replicate 7 (replicate 8 (1/2))) \<and>
     weight_data s' net 2 = Inr ((100 # replicate 7 (1/2)) # replicate 7 (replicate 8 (1/2)))"
proof -
  let ?c = "replicate 8 (replicate 8 (1/2)) :: mat"
  obtain net s where run: "shared_net halves fresh_kernel = (net, s)"
    by (cases "shared_net halves fresh_kernel")
  from shared_net_data [OF run, of "\<lambda>m. m = ?c"]
  have len: "length net = 4" and h: "weight (net ! Suc 0) = next_addr fresh_kernel"
    and "\<exists>a. data_of s (next_addr fresh_kernel) = Inr a \<and> ndarrays s a = Some ?c"
    by (simp_all add: halves_def)
  then have c: "weight_data s net 1 = Inr ?c"
    by (auto simp: weight_data_def)
  from tied_weights [OF run] obtain m where m1: "weight_data s net 1 = Inr m"
    and m2: "weight_data s net 2 = Inr m"
    and upd: "\<And>h i j v. h \<in> {1, 2} \<Longrightarrow> i < length m \<Longrightarrow> j < length (m ! i) \<Longrightarrow>
               \<exists>s'. set_weight net h i j v s = Inr s' \<and>
                  weight_data s' net 1 = Inr (m[i := (m ! i)[j := v]]) \<and>
                  weight_data s' net 2 = Inr (m[i := (m ! i)[j := v]])"
    by blast
  from c m1 have m: "m = ?c" by simp
  have "(1::nat) \<in> {1, 2}" "0 < length m" "0 < length (m ! 0)" by (simp_all add: m)
  from upd [OF this, of 100] obtain s' where "set_weight net 1 0 0 100 s = Inr s'"
    and "weight_data s' net 1 = Inr (m[0 := (m ! 0)[0 := 100]])"
    and "weight_data s' net 2 = Inr (m[0 := (m ! 0)[0 := 100]])"
    by blast
  moreover have "m[0 := (m ! 0)[0 := 100]] =
                 (100 # replicate 7 (1/2)) # replicate 7 (replicate 8 (1/2))"
    by (simp add: m numeral_eq_Suc)
  ultimately show ?thesis using run m1 m2 m by auto
qed


section \<open>Names are bound before they are read\<close>

text \<open>
  In each of the four notebooks every name a statement reads is a name of the interpreter
  or has been bound earlier in the same notebook.
\<close>

lemma naive_bayes_self_contained: "self_contained naive_bayes_notebook"
  by (simp add: self_contained_def statements_def naive_bayes_notebook_def builtins_def)

lemma parameters_self_contained: "self_contained parameters_notebook"
  by (simp add: self_contained_def statements_def parameters_notebook_def builtins_def)

lemma part_000_self_contained: "self_contained part_000_notebook"
  by (simp add: self_contained_def statements_def part_000_notebook_def builtins_def)

lemma part_001_self_contained: "self_contained part_001_notebook"
  by (simp add: self_contained_def statements_def part_001_notebook_def builtins_def)

lemma repository_self_contained: "list_all self_contained repository"
  by (simp add: repository_def naive_bayes_self_contained parameters_self_contained
      part_000_self_contained part_001_self_contained)

end
